theory Spec2Isabelle
  imports Complex_Main "HOL-Library.Char_ord" "HOL-Library.List_Lexorder"
    "HOL-Library.Product_Lexorder" "HOL-Library.Sublist"
begin

section \<open>The online recommendation pipeline of server/rest.go\<close>

text \<open>
  The development embeds the recommendation part of \<^verbatim>\<open>server/rest.go\<close>: the per-request
  context, the two hidden-item filters, the six recommenders, the driver \<^verbatim>\<open>Recommend\<close> and
  the HTTP handler \<^verbatim>\<open>getRecommend\<close> with its write-back loop.

  The cache store and the data store are interfaces of the packages \<^verbatim>\<open>storage/cache\<close> and
  \<^verbatim>\<open>storage/data\<close>. A backend is a record of operations over a state of an arbitrary type;
  every call the server makes is appended to a trace, so that what a function asks of the
  stores is part of its result. A Go function that returns an error is a function into
  \<open>outcome\<close>; a run-time panic (a slice or an index out of range) is the value \<open>Panic\<close>.
\<close>

subsection \<open>Data model\<close>

text \<open>
  Instants (\<^verbatim>\<open>time.Time\<close>) are nanoseconds since the Unix epoch.
\<close>

type_synonym instant = int

subsection \<open>Scores\<close>

text \<open>
  A score is a \<^verbatim>\<open>float32\<close>: a finite value, an infinity or NaN. The finite values of the
  type are the reals that \<open>round32\<close> leaves as they are; the two zeros are one value here,
  which no comparison tells apart. \<open>round32 x\<close> is the value nearest to \<open>x\<close> with 24
  significant bits, ties to the even one, over exponents from \<open>- 126\<close> (below, the spacing
  stays \<open>2 ^ - 149\<close>), and an infinity past the largest finite value. \<open>float32 x\<close> is the
  conversion \<^verbatim>\<open>float32(x)\<close> of an integer, \<open>add32\<close> the sum and \<open>le32\<close> the comparison
  \<^verbatim>\<open><=\<close> of two scores.
\<close>

datatype float32 = Finite real | PosInf | NegInf | NaN

type_synonym score = float32

text \<open>The number of binary digits of a natural number.\<close>

fun bitlen :: "nat \<Rightarrow> nat" where
  "bitlen n = (if n = 0 then 0 else Suc (bitlen (n div 2)))"

declare bitlen.simps [simp del]

text \<open>\<open>exponentOf x\<close> is the integer \<open>e\<close> with \<open>2 ^ e \<le> |x| < 2 ^ (e + 1)\<close>, for \<open>x\<close> other than 0.\<close>

definition exponentOf :: "real \<Rightarrow> int" where
  "exponentOf x =
     (if 1 \<le> \<bar>x\<bar> then int (bitlen (nat \<lfloor>\<bar>x\<bar>\<rfloor>)) - 1
      else - int (bitlen (nat (\<lceil>1 / \<bar>x\<bar>\<rceil> - 1))))"

definition pow2 :: "int \<Rightarrow> real" where
  "pow2 e = (if 0 \<le> e then 2 ^ nat e else 1 / 2 ^ nat (- e))"

definition roundHalfEven :: "real \<Rightarrow> int" where
  "roundHalfEven q =
     (let f = \<lfloor>q\<rfloor>; d = q - of_int f
      in if d < 1 / 2 then f else if 1 / 2 < d then f + 1 else if even f then f else f + 1)"

definition round32 :: "real \<Rightarrow> float32" where
  "round32 x =
     (if x = 0 then Finite 0
      else
        let e = max (exponentOf x) (- 126);
            ulp = pow2 (e - 23);
            v = of_int (roundHalfEven (x / ulp)) * ulp
        in if pow2 128 \<le> \<bar>v\<bar> then (if 0 < x then PosInf else NegInf) else Finite v)"

definition float32 :: "int \<Rightarrow> float32" where
  "float32 x = round32 (of_int x)"

fun add32 :: "float32 \<Rightarrow> float32 \<Rightarrow> float32" where
  "add32 NaN y = NaN"
| "add32 x NaN = NaN"
| "add32 PosInf NegInf = NaN"
| "add32 NegInf PosInf = NaN"
| "add32 PosInf y = PosInf"
| "add32 x PosInf = PosInf"
| "add32 NegInf y = NegInf"
| "add32 x NegInf = NegInf"
| "add32 (Finite a) (Finite b) = round32 (a + b)"

fun le32 :: "float32 \<Rightarrow> float32 \<Rightarrow> bool" where
  "le32 NaN y = False"
| "le32 x NaN = False"
| "le32 NegInf y = True"
| "le32 x PosInf = True"
| "le32 PosInf y = False"
| "le32 x NegInf = False"
| "le32 (Finite a) (Finite b) = (a \<le> b)"

text \<open>A score is a value of the type when rounding leaves it as it is.\<close>

fun representable :: "float32 \<Rightarrow> bool" where
  "representable (Finite x) = (round32 x = Finite x)"
| "representable PosInf = True"
| "representable NegInf = True"
| "representable NaN = True"

subsection \<open>Records of the stores\<close>

text \<open>\<^verbatim>\<open>cache.Scored\<close>: an id with its score.\<close>

record Scored =
  Id' :: string
  Score :: score

text \<open>\<^verbatim>\<open>data.FeedbackKey\<close> and \<^verbatim>\<open>data.Feedback\<close>, which embeds the key.\<close>

record FeedbackKey =
  FeedbackType :: string
  UserId :: string
  ItemId :: string

record Feedback = FeedbackKey +
  Timestamp :: instant
  Comment :: string

text \<open>\<^verbatim>\<open>data.Item\<close>; the fields carry the prefix \<open>Item\<close> where \<open>Feedback\<close> has the same name.\<close>

record Item =
  ItemItemId :: string
  IsHidden :: bool
  Categories :: "string list"
  ItemTimestamp :: instant
  Labels :: "string list"
  ItemComment :: string

text \<open>The key spaces of the cache store (the string constants of package \<^verbatim>\<open>cache\<close>).\<close>

datatype prefix =
    PopularItems | LatestItems | ItemNeighbors | UserNeighbors
  | OfflineRecommend | CollaborativeRecommend | IgnoreItems | HiddenItems
  | LastModifyUserTime | LastModifyItemTime

datatype error =
    StoreError string
  | ErrSyntax string
  | ErrRange string
  | UnknownFallback string

datatype 'a outcome = Return 'a | Fail error | Panic

text \<open>
  A Go slice is a list; where the source tests a slice against \<^verbatim>\<open>nil\<close> the slice is an
  optional list, \<open>None\<close> being \<^verbatim>\<open>nil\<close>. Ranging over a \<^verbatim>\<open>nil\<close> slice runs no iteration.
\<close>

type_synonym 'a slice = "'a list option"

definition elems :: "'a slice \<Rightarrow> 'a list" where
  "elems sl = (case sl of None \<Rightarrow> [] | Some xs \<Rightarrow> xs)"

subsection \<open>The stores\<close>

text \<open>Every operation of the two store interfaces, with its arguments.\<close>

datatype call =
    CallGetScores prefix string int int
  | CallGetCategoryScores prefix string string int int
  | CallExists prefix "string list"
  | CallAppendScores prefix string "Scored list"
  | CallSetInt prefix string int
  | CallSetTime prefix string instant
  | CallDelete prefix string
  | CallGetUserFeedback string bool "string list"
  | CallGetItem string
  | CallBatchInsertFeedback "Feedback list" bool bool bool

text \<open>The operations of \<^verbatim>\<open>cache.Database\<close> that the pipeline uses, over a cache state \<open>'c\<close>.\<close>

record 'c CacheDatabase =
  getScores :: "prefix \<Rightarrow> string \<Rightarrow> int \<Rightarrow> int \<Rightarrow> 'c \<Rightarrow> error + Scored list"
  getCategoryScores :: "prefix \<Rightarrow> string \<Rightarrow> string \<Rightarrow> int \<Rightarrow> int \<Rightarrow> 'c \<Rightarrow> error + Scored list"
  exists :: "prefix \<Rightarrow> string list \<Rightarrow> 'c \<Rightarrow> error + int list"
  appendScores :: "prefix \<Rightarrow> string \<Rightarrow> Scored list \<Rightarrow> 'c \<Rightarrow> error option \<times> 'c"

text \<open>The operations of \<^verbatim>\<open>data.Database\<close> that the pipeline uses, over a data state \<open>'d\<close>.\<close>

record 'd DataDatabase =
  getUserFeedback :: "string \<Rightarrow> bool \<Rightarrow> string list \<Rightarrow> 'd \<Rightarrow> error + Feedback slice"
  getItem :: "string \<Rightarrow> 'd \<Rightarrow> error + Item"
  batchInsertFeedback :: "Feedback list \<Rightarrow> bool \<Rightarrow> bool \<Rightarrow> bool \<Rightarrow> 'd \<Rightarrow> error option \<times> 'd"

text \<open>The options of \<^verbatim>\<open>config.Config\<close> that the pipeline reads.\<close>

record Config =
  DefaultN :: int
  APIKey :: string
  CacheSize :: int
  PositiveFeedbackType :: "string list"
  FallbackRecommend :: "string list"

record ('c, 'd) RestServer =
  CacheClient :: "'c CacheDatabase"
  DataClient :: "'d DataDatabase"
  GorseConfig :: Config
  IsDashboard :: bool

text \<open>
  What lies outside the process: the states of the two stores, the calls made so far, the
  errors written to the log and the number of readings taken from the clock.
\<close>

record ('c, 'd) world =
  cacheState :: 'c
  dataState :: 'd
  trace :: "call list"
  errorLog :: "error list"
  ticks :: nat

text \<open>
  The clock of the Go runtime: \<open>clock rt k\<close> is what the reading number \<open>k\<close> of
  \<^verbatim>\<open>time.Now()\<close> returns. The readings counted are those whose value enters a comparison or
  a row; the readings that only measure running times for the log and the histograms are
  not taken, so the clock stands for the readings of the first kind in their order.
\<close>

record runtime =
  clock :: "nat \<Rightarrow> instant"

type_synonym ('a, 'c, 'd) prog = "('c, 'd) world \<Rightarrow> 'a outcome \<times> ('c, 'd) world"

definition bind :: "('a, 'c, 'd) prog \<Rightarrow> ('a \<Rightarrow> ('b, 'c, 'd) prog) \<Rightarrow> ('b, 'c, 'd) prog" where
  "bind m f w =
     (case m w of
        (Return a, w') \<Rightarrow> f a w'
      | (Fail e, w') \<Rightarrow> (Fail e, w')
      | (Panic, w') \<Rightarrow> (Panic, w'))"

definition logged :: "call \<Rightarrow> ('c, 'd) world \<Rightarrow> ('c, 'd) world" where
  "logged c w = w\<lparr>trace := trace w @ [c]\<rparr>"

definition answer :: "error + 'a \<Rightarrow> 'a outcome" where
  "answer r = (case r of Inl e \<Rightarrow> Fail e | Inr a \<Rightarrow> Return a)"

definition GetScores ::
  "('c, 'd) RestServer \<Rightarrow> prefix \<Rightarrow> string \<Rightarrow> int \<Rightarrow> int \<Rightarrow> (Scored list, 'c, 'd) prog" where
  "GetScores s p name lo hi w =
     (answer (getScores (CacheClient s) p name lo hi (cacheState w)),
      logged (CallGetScores p name lo hi) w)"

definition GetCategoryScores ::
  "('c, 'd) RestServer \<Rightarrow> prefix \<Rightarrow> string \<Rightarrow> string \<Rightarrow> int \<Rightarrow> int \<Rightarrow> (Scored list, 'c, 'd) prog" where
  "GetCategoryScores s p name cat lo hi w =
     (answer (getCategoryScores (CacheClient s) p name cat lo hi (cacheState w)),
      logged (CallGetCategoryScores p name cat lo hi) w)"

definition Exists ::
  "('c, 'd) RestServer \<Rightarrow> prefix \<Rightarrow> string list \<Rightarrow> (int list, 'c, 'd) prog" where
  "Exists s p names w =
     (answer (exists (CacheClient s) p names (cacheState w)), logged (CallExists p names) w)"

definition AppendScores ::
  "('c, 'd) RestServer \<Rightarrow> prefix \<Rightarrow> string \<Rightarrow> Scored list \<Rightarrow> (unit, 'c, 'd) prog" where
  "AppendScores s p name entries w =
     (case appendScores (CacheClient s) p name entries (cacheState w) of
        (err, c') \<Rightarrow>
          ((case err of None \<Rightarrow> Return () | Some e \<Rightarrow> Fail e),
           logged (CallAppendScores p name entries) (w\<lparr>cacheState := c'\<rparr>)))"

definition GetUserFeedback ::
  "('c, 'd) RestServer \<Rightarrow> string \<Rightarrow> bool \<Rightarrow> string list \<Rightarrow> (Feedback slice, 'c, 'd) prog" where
  "GetUserFeedback s uid withFuture types w =
     (answer (getUserFeedback (DataClient s) uid withFuture types (dataState w)),
      logged (CallGetUserFeedback uid withFuture types) w)"

definition GetItem :: "('c, 'd) RestServer \<Rightarrow> string \<Rightarrow> (Item, 'c, 'd) prog" where
  "GetItem s iid w =
     (answer (getItem (DataClient s) iid (dataState w)), logged (CallGetItem iid) w)"

definition BatchInsertFeedback ::
  "('c, 'd) RestServer \<Rightarrow> Feedback list \<Rightarrow> bool \<Rightarrow> bool \<Rightarrow> bool \<Rightarrow> (unit, 'c, 'd) prog" where
  "BatchInsertFeedback s rows insertUser insertItem overwrite w =
     (case batchInsertFeedback (DataClient s) rows insertUser insertItem overwrite (dataState w) of
        (err, d') \<Rightarrow>
          ((case err of None \<Rightarrow> Return () | Some e \<Rightarrow> Fail e),
           logged (CallBatchInsertFeedback rows insertUser insertItem overwrite)
             (w\<lparr>dataState := d'\<rparr>)))"

definition ret :: "'a \<Rightarrow> ('a, 'c, 'd) prog" where
  "ret a w = (Return a, w)"

text \<open>\<^verbatim>\<open>time.Now()\<close>: the next reading of the clock.\<close>

definition Now :: "runtime \<Rightarrow> (instant, 'c, 'd) prog" where
  "Now rt w = (Return (clock rt (ticks w)), w\<lparr>ticks := Suc (ticks w)\<rparr>)"

subsection \<open>Time and machine integers\<close>

text \<open>
  \<^verbatim>\<open>int\<close>, \<^verbatim>\<open>int64\<close> and \<^verbatim>\<open>time.Duration\<close> are 64-bit two's complement integers: sums and
  products wrap. \<^verbatim>\<open>t.Unix()\<close> is the number of whole seconds of the instant \<open>t\<close>.
\<close>

definition wrap64 :: "int \<Rightarrow> int" where
  "wrap64 x = (x + 2 ^ 63) mod 2 ^ 64 - 2 ^ 63"

definition Minute :: int where
  "Minute = 60000000000"

definition Unix :: "instant \<Rightarrow> int" where
  "Unix t = t div 1000000000"

subsection \<open>The per-request context\<close>

text \<open>
  \<^verbatim>\<open>recommendContext\<close>. The field \<^verbatim>\<open>n\<close> is \<open>n'\<close> here. The seven \<^verbatim>\<open>time.Duration\<close> fields,
  which only hold measured running times for the log and the histograms, are left out.
\<close>

record recommendContext =
  userId :: string
  category :: string
  userFeedback :: "Feedback slice"
  n' :: int
  results :: "string list"
  excludeSet :: "string set"
  numPrevStage :: int
  numFromLatest :: int
  numFromPopular :: int
  numFromUserBased :: int
  numFromItemBased :: int
  numFromCollaborative :: int
  numFromOffline :: int

text \<open>
  The loop of \<^verbatim>\<open>createRecommendContext\<close> over the ignored items, which reads the clock for
  each of them.
\<close>

fun ignoreLoop :: "runtime \<Rightarrow> Scored list \<Rightarrow> string set \<Rightarrow> (string set, 'c, 'd) prog" where
  "ignoreLoop rt [] ex w = ret ex w"
| "ignoreLoop rt (item # items) ex w =
     bind (Now rt) (\<lambda>t w'.
       ignoreLoop rt items
         (if le32 (Score item) (float32 (Unix t)) then insert (Id' item) ex else ex) w') w"

definition createRecommendContext ::
  "('c, 'd) RestServer \<Rightarrow> runtime \<Rightarrow> string \<Rightarrow> string \<Rightarrow> int \<Rightarrow> (recommendContext, 'c, 'd) prog" where
  "createRecommendContext s rt uid cat n =
     bind (GetScores s IgnoreItems uid 0 (- 1)) (\<lambda>ignoreItems.
     bind (ignoreLoop rt ignoreItems {}) (\<lambda>excluded.
       ret \<lparr>userId = uid, category = cat, userFeedback = None, n' = n, results = [],
            excludeSet = excluded,
            numPrevStage = 0, numFromLatest = 0, numFromPopular = 0, numFromUserBased = 0,
            numFromItemBased = 0, numFromCollaborative = 0, numFromOffline = 0\<rparr>))"

definition requireUserFeedback ::
  "('c, 'd) RestServer \<Rightarrow> recommendContext \<Rightarrow> (recommendContext, 'c, 'd) prog" where
  "requireUserFeedback s ctx =
     (case userFeedback ctx of
        None \<Rightarrow>
          bind (GetUserFeedback s (userId ctx) False []) (\<lambda>fb.
            ret (ctx\<lparr>userFeedback := fb,
                      excludeSet := excludeSet ctx \<union> ItemId ` set (elems fb)\<rparr>))
      | Some fb \<Rightarrow> ret ctx)"

subsection \<open>The hidden-item filters\<close>

text \<open>
  The loop \<^verbatim>\<open>for i := range isHidden\<close> of both filters: \<open>i\<close> is the index reached and \<open>acc\<close>
  the slice built so far. \<^verbatim>\<open>items[i]\<close> is read only where the flag is 0, and panics when
  \<open>i\<close> is not an index of \<open>items\<close>.
\<close>

fun hiddenLoop :: "int list \<Rightarrow> 'a list \<Rightarrow> nat \<Rightarrow> 'a list \<Rightarrow> 'a list outcome" where
  "hiddenLoop [] items i acc = Return acc"
| "hiddenLoop (h # hs) items i acc =
     (if h = 0
      then (if i < length items then hiddenLoop hs items (Suc i) (acc @ [items ! i]) else Panic)
      else hiddenLoop hs items (Suc i) acc)"

text \<open>
  Modelled from the spec: \<^verbatim>\<open>cache.RemoveScores\<close> is not among the sources; the spec has the
  filter query \<^verbatim>\<open>Exists(HiddenItems, ids)\<close> with the ids of the scored list.
\<close>

definition RemoveScores :: "Scored list \<Rightarrow> string list" where
  "RemoveScores items = map Id' items"

definition logError :: "error \<Rightarrow> ('c, 'd) world \<Rightarrow> ('c, 'd) world" where
  "logError e w = w\<lparr>errorLog := errorLog w @ [e]\<rparr>"

definition filterOutHiddenScores ::
  "('c, 'd) RestServer \<Rightarrow> Scored list \<Rightarrow> (Scored list, 'c, 'd) prog" where
  "filterOutHiddenScores s items w =
     (case Exists s HiddenItems (RemoveScores items) w of
        (Fail e, w') \<Rightarrow> (Return items, logError e w')
      | (Return isHidden, w') \<Rightarrow> (hiddenLoop isHidden items 0 [], w')
      | (Panic, w') \<Rightarrow> (Panic, w'))"

definition filterOutHiddenFeedback ::
  "('c, 'd) RestServer \<Rightarrow> Feedback list \<Rightarrow> (Feedback list, 'c, 'd) prog" where
  "filterOutHiddenFeedback s feedbacks w =
     (case Exists s HiddenItems (map ItemId feedbacks) w of
        (Fail e, w') \<Rightarrow> (Return feedbacks, logError e w')
      | (Return isHidden, w') \<Rightarrow> (hiddenLoop isHidden feedbacks 0 [], w')
      | (Panic, w') \<Rightarrow> (Panic, w'))"

subsection \<open>Candidate maps and the top-k selector\<close>

text \<open>
  \<^verbatim>\<open>candidates\<close> is a \<^verbatim>\<open>map[string]float32\<close>: a list of pairs with one pair for each key.
  \<open>addScore k v m\<close> is \<^verbatim>\<open>m[k] += v\<close>, a sum of two \<^verbatim>\<open>float32\<close>, where a key that is absent
  reads as 0.
\<close>

fun addScore :: "string \<Rightarrow> score \<Rightarrow> (string \<times> score) list \<Rightarrow> (string \<times> score) list" where
  "addScore k v [] = [(k, add32 (Finite 0) v)]"
| "addScore k v ((k', v') # m) =
     (if k = k' then (k', add32 v' v) # m else (k', v') # addScore k v m)"

text \<open>
  Modelled from the spec: package \<^verbatim>\<open>base\<close> (\<^verbatim>\<open>NewTopKStringFilter\<close>, \<^verbatim>\<open>Push\<close>, \<^verbatim>\<open>PopAll\<close>) is not
  among the sources. By the spec the selector keeps at most \<open>k\<close> pairs of highest score and
  \<^verbatim>\<open>PopAll\<close> drains them in descending order of score, ties in lexicographic order of the
  id. \<open>topK k m\<close> is the list of ids \<^verbatim>\<open>PopAll\<close> returns after every pair of \<open>m\<close> was pushed
  into a selector of capacity \<open>k\<close>. \<open>scoreRank\<close> puts the scores in descending order: the
  positive infinity first, then the finite values from the greatest down, then the negative
  infinity; the spec has no place for NaN, which comes last here.
\<close>

fun scoreRank :: "score \<Rightarrow> int \<times> real" where
  "scoreRank PosInf = (0, 0)"
| "scoreRank (Finite x) = (1, - x)"
| "scoreRank NegInf = (2, 0)"
| "scoreRank NaN = (3, 0)"

definition topK :: "int \<Rightarrow> (string \<times> score) list \<Rightarrow> string list" where
  "topK k m = map fst (take (nat k) (sort_key (\<lambda>(i, sc). (scoreRank sc, i)) m))"

subsection \<open>The six recommenders\<close>

type_synonym ('c, 'd) Recommender = "recommendContext \<Rightarrow> (recommendContext, 'c, 'd) prog"

text \<open>
  The loop shared by the offline, collaborative, latest and popular recommenders:
  an id that is not in the exclusion set is appended to the results and added to the set.
\<close>

fun appendUnseen :: "Scored list \<Rightarrow> recommendContext \<Rightarrow> recommendContext" where
  "appendUnseen [] ctx = ctx"
| "appendUnseen (item # items) ctx =
     appendUnseen items
       (if Id' item \<notin> excludeSet ctx
        then ctx\<lparr>results := results ctx @ [Id' item],
                 excludeSet := insert (Id' item) (excludeSet ctx)\<rparr>
        else ctx)"

definition RecommendOffline :: "('c, 'd) RestServer \<Rightarrow> ('c, 'd) Recommender" where
  "RecommendOffline s ctx =
     (if int (length (results ctx)) < n' ctx then
        bind (GetCategoryScores s OfflineRecommend (userId ctx) (category ctx) 0
                (CacheSize (GorseConfig s))) (\<lambda>recommendation.
        bind (filterOutHiddenScores s recommendation) (\<lambda>recommendation.
          let ctx = appendUnseen recommendation ctx;
              ctx = ctx\<lparr>numFromOffline := int (length (results ctx)) - numPrevStage ctx\<rparr>
          in ret (ctx\<lparr>numPrevStage := int (length (results ctx))\<rparr>)))
      else ret ctx)"

definition RecommendCollaborative :: "('c, 'd) RestServer \<Rightarrow> ('c, 'd) Recommender" where
  "RecommendCollaborative s ctx =
     (if int (length (results ctx)) < n' ctx then
        bind (GetCategoryScores s CollaborativeRecommend (userId ctx) (category ctx) 0
                (CacheSize (GorseConfig s))) (\<lambda>collaborativeRecommendation.
        bind (filterOutHiddenScores s collaborativeRecommendation) (\<lambda>collaborativeRecommendation.
          let ctx = appendUnseen collaborativeRecommendation ctx;
              ctx = ctx\<lparr>numFromCollaborative := int (length (results ctx)) - numPrevStage ctx\<rparr>
          in ret (ctx\<lparr>numPrevStage := int (length (results ctx))\<rparr>)))
      else ret ctx)"

text \<open>
  The inner loop of \<^verbatim>\<open>RecommendUserBased\<close> over the feedback of one similar user: an item
  that is not excluded is fetched, and its id gains the similarity of the user when the
  category is empty or is one of the item's categories.
\<close>

fun unseenFeedbackLoop ::
  "('c, 'd) RestServer \<Rightarrow> recommendContext \<Rightarrow> Scored \<Rightarrow> Feedback list \<Rightarrow>
     (string \<times> score) list \<Rightarrow> ((string \<times> score) list, 'c, 'd) prog" where
  "unseenFeedbackLoop s ctx user [] candidates w = ret candidates w"
| "unseenFeedbackLoop s ctx user (feedback # feedbacks) candidates w =
     (if ItemId feedback \<notin> excludeSet ctx then
        bind (GetItem s (ItemId feedback)) (\<lambda>item w'.
          unseenFeedbackLoop s ctx user feedbacks
            (if category ctx = [] \<or> category ctx \<in> set (Categories item)
             then addScore (ItemId feedback) (Score user) candidates else candidates) w') w
      else unseenFeedbackLoop s ctx user feedbacks candidates w)"

text \<open>The outer loop of \<^verbatim>\<open>RecommendUserBased\<close> over the similar users.\<close>

fun similarUsersLoop ::
  "('c, 'd) RestServer \<Rightarrow> recommendContext \<Rightarrow> Scored list \<Rightarrow>
     (string \<times> score) list \<Rightarrow> ((string \<times> score) list, 'c, 'd) prog" where
  "similarUsersLoop s ctx [] candidates w = ret candidates w"
| "similarUsersLoop s ctx (user # users) candidates w =
     bind (GetUserFeedback s (Id' user) False (PositiveFeedbackType (GorseConfig s))) (\<lambda>feedbacks.
     bind (filterOutHiddenFeedback s (elems feedbacks)) (\<lambda>feedbacks.
     bind (unseenFeedbackLoop s ctx user feedbacks candidates) (\<lambda>candidates w'.
       similarUsersLoop s ctx users candidates w'))) w"

definition RecommendUserBased :: "('c, 'd) RestServer \<Rightarrow> ('c, 'd) Recommender" where
  "RecommendUserBased s ctx =
     (if int (length (results ctx)) < n' ctx then
        bind (requireUserFeedback s ctx) (\<lambda>ctx.
        bind (GetScores s UserNeighbors (userId ctx) 0 (CacheSize (GorseConfig s))) (\<lambda>similarUsers.
        bind (similarUsersLoop s ctx similarUsers []) (\<lambda>candidates.
          let k = n' ctx - int (length (results ctx));
              ids = topK k candidates;
              ctx = ctx\<lparr>results := results ctx @ ids\<rparr>;
              ctx = ctx\<lparr>excludeSet := excludeSet ctx \<union> set ids\<rparr>;
              ctx = ctx\<lparr>numFromUserBased := int (length (results ctx)) - numPrevStage ctx\<rparr>
          in ret (ctx\<lparr>numPrevStage := int (length (results ctx))\<rparr>))))
      else ret ctx)"

text \<open>The inner loop of \<^verbatim>\<open>RecommendItemBased\<close> over the neighbours of one item.\<close>

fun unseenItemsLoop ::
  "recommendContext \<Rightarrow> Scored list \<Rightarrow> (string \<times> score) list \<Rightarrow> (string \<times> score) list" where
  "unseenItemsLoop ctx [] candidates = candidates"
| "unseenItemsLoop ctx (item # items) candidates =
     unseenItemsLoop ctx items
       (if Id' item \<notin> excludeSet ctx then addScore (Id' item) (Score item) candidates
        else candidates)"

text \<open>The outer loop of \<^verbatim>\<open>RecommendItemBased\<close> over the feedback of the user.\<close>

fun similarItemsLoop ::
  "('c, 'd) RestServer \<Rightarrow> recommendContext \<Rightarrow> Feedback list \<Rightarrow>
     (string \<times> score) list \<Rightarrow> ((string \<times> score) list, 'c, 'd) prog" where
  "similarItemsLoop s ctx [] candidates w = ret candidates w"
| "similarItemsLoop s ctx (feedback # feedbacks) candidates w =
     bind (GetCategoryScores s ItemNeighbors (ItemId feedback) (category ctx) 0
             (CacheSize (GorseConfig s))) (\<lambda>similarItems.
     bind (filterOutHiddenScores s similarItems) (\<lambda>similarItems w'.
       similarItemsLoop s ctx feedbacks (unseenItemsLoop ctx similarItems candidates) w')) w"

definition RecommendItemBased :: "('c, 'd) RestServer \<Rightarrow> ('c, 'd) Recommender" where
  "RecommendItemBased s ctx =
     (if int (length (results ctx)) < n' ctx then
        bind (requireUserFeedback s ctx) (\<lambda>ctx.
        bind (similarItemsLoop s ctx (elems (userFeedback ctx)) []) (\<lambda>candidates.
          let k = n' ctx - int (length (results ctx));
              ids = topK k candidates;
              ctx = ctx\<lparr>results := results ctx @ ids\<rparr>;
              ctx = ctx\<lparr>excludeSet := excludeSet ctx \<union> set ids\<rparr>;
              ctx = ctx\<lparr>numFromItemBased := int (length (results ctx)) - numPrevStage ctx\<rparr>
          in ret (ctx\<lparr>numPrevStage := int (length (results ctx))\<rparr>)))
      else ret ctx)"

definition RecommendLatest :: "('c, 'd) RestServer \<Rightarrow> ('c, 'd) Recommender" where
  "RecommendLatest s ctx =
     (if int (length (results ctx)) < n' ctx then
        bind (requireUserFeedback s ctx) (\<lambda>ctx.
        bind (GetScores s LatestItems (category ctx) 0
                (n' ctx - int (length (results ctx)))) (\<lambda>items.
        bind (filterOutHiddenScores s items) (\<lambda>items.
          let ctx = appendUnseen items ctx;
              ctx = ctx\<lparr>numFromLatest := int (length (results ctx)) - numPrevStage ctx\<rparr>
          in ret (ctx\<lparr>numPrevStage := int (length (results ctx))\<rparr>))))
      else ret ctx)"

definition RecommendPopular :: "('c, 'd) RestServer \<Rightarrow> ('c, 'd) Recommender" where
  "RecommendPopular s ctx =
     (if int (length (results ctx)) < n' ctx then
        bind (requireUserFeedback s ctx) (\<lambda>ctx.
        bind (GetScores s PopularItems (category ctx) 0
                (n' ctx - int (length (results ctx)))) (\<lambda>items.
        bind (filterOutHiddenScores s items) (\<lambda>items.
          let ctx = appendUnseen items ctx;
              ctx = ctx\<lparr>numFromPopular := int (length (results ctx)) - numPrevStage ctx\<rparr>
          in ret (ctx\<lparr>numPrevStage := int (length (results ctx))\<rparr>))))
      else ret ctx)"

subsection \<open>The driver\<close>

text \<open>The loop of \<^verbatim>\<open>Recommend\<close> over its recommenders: the first error ends it.\<close>

fun runRecommenders ::
  "('c, 'd) Recommender list \<Rightarrow> recommendContext \<Rightarrow> (recommendContext, 'c, 'd) prog" where
  "runRecommenders [] ctx = ret ctx"
| "runRecommenders (recommender # recommenders) ctx =
     bind (recommender ctx) (runRecommenders recommenders)"

text \<open>
  \<^verbatim>\<open>if len(ctx.results) > n { ctx.results = ctx.results[:n] }\<close>: the slice expression panics
  when \<open>n\<close> is negative.
\<close>

definition truncateResults :: "int \<Rightarrow> recommendContext \<Rightarrow> (recommendContext, 'c, 'd) prog" where
  "truncateResults n ctx w =
     (if int (length (results ctx)) > n
      then (if 0 \<le> n then (Return (ctx\<lparr>results := take (nat n) (results ctx)\<rparr>), w)
            else (Panic, w))
      else (Return ctx, w))"

text \<open>
  The body of \<^verbatim>\<open>Recommend\<close> down to its log line: the context whose counters are logged
  and whose results are returned.
\<close>

definition recommendRun ::
  "('c, 'd) RestServer \<Rightarrow> runtime \<Rightarrow> string \<Rightarrow> string \<Rightarrow> int \<Rightarrow> ('c, 'd) Recommender list \<Rightarrow>
     (recommendContext, 'c, 'd) prog" where
  "recommendRun s rt uid cat n recommenders =
     bind (createRecommendContext s rt uid cat n) (\<lambda>ctx.
     bind (runRecommenders recommenders ctx) (\<lambda>ctx.
       truncateResults n ctx))"

definition Recommend ::
  "('c, 'd) RestServer \<Rightarrow> runtime \<Rightarrow> string \<Rightarrow> string \<Rightarrow> int \<Rightarrow> ('c, 'd) Recommender list \<Rightarrow>
     (string list, 'c, 'd) prog" where
  "Recommend s rt uid cat n recommenders =
     bind (recommendRun s rt uid cat n recommenders) (\<lambda>ctx. ret (results ctx))"

text \<open>The six recommenders by name, for statements about chains of them.\<close>

datatype stage = Offline | Collaborative | ItemBased | UserBased | Latest | Popular

fun recommenderOf :: "('c, 'd) RestServer \<Rightarrow> stage \<Rightarrow> ('c, 'd) Recommender" where
  "recommenderOf s Offline = RecommendOffline s"
| "recommenderOf s Collaborative = RecommendCollaborative s"
| "recommenderOf s ItemBased = RecommendItemBased s"
| "recommenderOf s UserBased = RecommendUserBased s"
| "recommenderOf s Latest = RecommendLatest s"
| "recommenderOf s Popular = RecommendPopular s"

subsection \<open>The HTTP handler\<close>

text \<open>
  A request, as the handler reads it: \<^verbatim>\<open>PathParameter\<close>, \<^verbatim>\<open>QueryParameter\<close> and
  \<^verbatim>\<open>HeaderParameter\<close> give the empty string for a name that is absent.
\<close>

record Request =
  PathParameter :: "string \<Rightarrow> string"
  QueryParameter :: "string \<Rightarrow> string"
  HeaderParameter :: "string \<Rightarrow> string"

text \<open>What the handler writes: \<^verbatim>\<open>Ok\<close>, \<^verbatim>\<open>BadRequest\<close>, \<^verbatim>\<open>InternalServerError\<close>, or the 401 of \<^verbatim>\<open>auth\<close>.\<close>

datatype response =
    Ok "string list"
  | BadRequest error
  | InternalServerError error
  | Unauthorized

fun statusCode :: "response \<Rightarrow> nat" where
  "statusCode (Ok content) = 200"
| "statusCode (BadRequest err) = 400"
| "statusCode (InternalServerError err) = 500"
| "statusCode Unauthorized = 401"

text \<open>
  \<^verbatim>\<open>strconv.Atoi\<close> of the Go library: an optional sign and then one or more decimal digits,
  a syntax error otherwise, and a range error for a value outside 64 bits.
\<close>

definition isDigit :: "char \<Rightarrow> bool" where
  "isDigit c = (c \<in> set ''0123456789'')"

fun digitsValue :: "string \<Rightarrow> int \<Rightarrow> int" where
  "digitsValue [] acc = acc"
| "digitsValue (c # cs) acc = digitsValue cs (acc * 10 + (of_char c - 48))"

definition Atoi :: "string \<Rightarrow> error + int" where
  "Atoi str =
     (let (neg, digits) =
            (case str of
               [] \<Rightarrow> (False, [])
             | c # cs \<Rightarrow>
                 if c = CHR ''-'' then (True, cs)
                 else if c = CHR ''+'' then (False, cs)
                 else (False, str))
      in if digits = [] \<or> \<not> list_all isDigit digits then Inl (ErrSyntax str)
         else let v = (if neg then - digitsValue digits 0 else digitsValue digits 0)
              in if v < - (2 ^ 63) \<or> 2 ^ 63 \<le> v then Inl (ErrRange str) else Inr v)"

definition ParseInt :: "Request \<Rightarrow> string \<Rightarrow> int \<Rightarrow> error + int" where
  "ParseInt request name fallback =
     (let valueString = QueryParameter request name
      in case Atoi valueString of
           Inl err \<Rightarrow> if valueString = [] then Inr fallback else Inl err
         | Inr v \<Rightarrow> Inr v)"

definition auth :: "('c, 'd) RestServer \<Rightarrow> Request \<Rightarrow> bool" where
  "auth s request =
     (if IsDashboard s \<or> APIKey (GorseConfig s) = [] then True
      else if HeaderParameter request ''X-API-Key'' = APIKey (GorseConfig s) then True
      else False)"

definition InsertFeedbackToCache ::
  "('c, 'd) RestServer \<Rightarrow> Feedback list \<Rightarrow> (unit, 'c, 'd) prog" where
  "InsertFeedbackToCache s feedback =
     fold (\<lambda>v acc. bind acc (\<lambda>_.
             AppendScores s IgnoreItems (UserId v)
               [\<lparr>Id' = ItemId v, Score = float32 (Unix (Timestamp v))\<rparr>]))
       feedback (ret ())"

text \<open>
  The write-back loop of \<^verbatim>\<open>getRecommend\<close>, which ends at the first error of a store. It
  reads the clock for each item. \<^verbatim>\<open>time.Minute * time.Duration(writeBackDelay)\<close> is a product
  of 64-bit integers.
\<close>

fun writeBack ::
  "('c, 'd) RestServer \<Rightarrow> runtime \<Rightarrow> string \<Rightarrow> string \<Rightarrow> int \<Rightarrow> string list \<Rightarrow> (unit, 'c, 'd) prog" where
  "writeBack s rt uid writeBackFeedback writeBackDelay [] = ret ()"
| "writeBack s rt uid writeBackFeedback writeBackDelay (itemId # itemIds) =
     bind (Now rt) (\<lambda>t.
       let feedback = \<lparr>FeedbackType = writeBackFeedback, UserId = uid, ItemId = itemId,
                       Timestamp = t + wrap64 (Minute * writeBackDelay), Comment = []\<rparr>
       in bind (BatchInsertFeedback s [feedback] False False False) (\<lambda>_.
          bind (InsertFeedbackToCache s [feedback]) (\<lambda>_.
            writeBack s rt uid writeBackFeedback writeBackDelay itemIds)))"

text \<open>The loop of \<^verbatim>\<open>getRecommend\<close> over the configured fallback names.\<close>

fun fallbackLoop ::
  "('c, 'd) RestServer \<Rightarrow> string list \<Rightarrow> ('c, 'd) Recommender list \<Rightarrow>
     error + ('c, 'd) Recommender list" where
  "fallbackLoop s [] recommenders = Inr recommenders"
| "fallbackLoop s (recommender # names) recommenders =
     (if recommender = ''collaborative''
        then fallbackLoop s names (recommenders @ [RecommendCollaborative s])
      else if recommender = ''item_based''
        then fallbackLoop s names (recommenders @ [RecommendItemBased s])
      else if recommender = ''user_based''
        then fallbackLoop s names (recommenders @ [RecommendUserBased s])
      else if recommender = ''latest''
        then fallbackLoop s names (recommenders @ [RecommendLatest s])
      else if recommender = ''popular''
        then fallbackLoop s names (recommenders @ [RecommendPopular s])
      else Inl (UnknownFallback recommender))"

text \<open>
  \<^verbatim>\<open>getRecommend\<close>. \<^verbatim>\<open>BadRequest\<close> and \<^verbatim>\<open>InternalServerError\<close> log the error they send.
  \<^verbatim>\<open>offset+n\<close> is a sum of 64-bit integers, and \<^verbatim>\<open>results[offset:]\<close> panics unless
  \<open>0 \<le> offset \<le> len(results)\<close>.
\<close>

text \<open>The part of \<^verbatim>\<open>getRecommend\<close> after the call of \<^verbatim>\<open>Recommend\<close> has returned its list.\<close>

definition sendResults ::
  "('c, 'd) RestServer \<Rightarrow> runtime \<Rightarrow> string \<Rightarrow> int \<Rightarrow> string \<Rightarrow> int \<Rightarrow> string list \<Rightarrow>
     (response, 'c, 'd) prog" where
  "sendResults s rt uid offset writeBackFeedback writeBackDelay rs w =
     (if offset < 0 \<or> int (length rs) < offset then (Panic, w)
      else
        let rs = drop (nat offset) rs in
        if writeBackFeedback \<noteq> [] then
          (case writeBack s rt uid writeBackFeedback writeBackDelay rs w of
             (Fail err, w') \<Rightarrow> (Return (InternalServerError err), logError err w')
           | (Panic, w') \<Rightarrow> (Panic, w')
           | (Return u, w') \<Rightarrow> (Return (Ok rs), w'))
        else (Return (Ok rs), w))"

definition getRecommend ::
  "('c, 'd) RestServer \<Rightarrow> runtime \<Rightarrow> Request \<Rightarrow> (response, 'c, 'd) prog" where
  "getRecommend s rt request w =
     (if \<not> auth s request then (Return Unauthorized, w)
      else
        let uid = PathParameter request ''user-id'' in
        (case ParseInt request ''n'' (DefaultN (GorseConfig s)) of
          Inl err \<Rightarrow> (Return (BadRequest err), logError err w)
        | Inr n \<Rightarrow>
        let cat = PathParameter request ''category'' in
        (case ParseInt request ''offset'' 0 of
          Inl err \<Rightarrow> (Return (BadRequest err), logError err w)
        | Inr offset \<Rightarrow>
        let writeBackFeedback = QueryParameter request ''write-back-type'' in
        (case ParseInt request ''write-back-delay'' 0 of
          Inl err \<Rightarrow> (Return (BadRequest err), logError err w)
        | Inr writeBackDelay \<Rightarrow>
        (case fallbackLoop s (FallbackRecommend (GorseConfig s)) [RecommendOffline s] of
          Inl err \<Rightarrow> (Return (InternalServerError err), logError err w)
        | Inr recommenders \<Rightarrow>
        (case Recommend s rt uid cat (wrap64 (offset + n)) recommenders w of
          (Fail err, w') \<Rightarrow> (Return (InternalServerError err), logError err w')
        | (Panic, w') \<Rightarrow> (Panic, w')
        | (Return rs, w') \<Rightarrow>
            sendResults s rt uid offset writeBackFeedback writeBackDelay rs w'))))))"

subsection \<open>A backend in memory\<close>

text \<open>
  Modelled from the spec: no backend of \<^verbatim>\<open>cache.Database\<close> or \<^verbatim>\<open>data.Database\<close> is among the
  sources. The backend below follows the contracts of the spec: \<^verbatim>\<open>GetScores\<close> takes
  inclusive indices, with \<open>-1\<close> as end for "to the end", and keeps the stored order;
  \<^verbatim>\<open>GetCategoryScores\<close> appends \<open>/category\<close> to the name when the category is not empty;
  \<^verbatim>\<open>Exists\<close> answers 1 for a name that is present and 0 otherwise; \<^verbatim>\<open>GetUserFeedback\<close>
  returns the rows of a user, of the given types when there are any, without the rows of a
  later instant unless \<open>withFuture\<close> is set. A store answers with an error every call on a
  key space marked as failing, every call when it is down, and every write when its writes
  are marked as failing.
\<close>

record memCache =
  scoreLists :: "prefix \<Rightarrow> string \<Rightarrow> Scored list"
  present :: "prefix \<Rightarrow> string list"
  failing :: "prefix list"
  appendFails :: bool

record memData =
  feedbackRows :: "Feedback list"
  itemRows :: "Item list"
  storeClock :: instant
  dataDown :: bool
  insertFails :: bool

definition rangeIncl :: "'a list \<Rightarrow> int \<Rightarrow> int \<Rightarrow> 'a list" where
  "rangeIncl xs lo hi =
     (if hi = - 1 then drop (nat lo) xs else take (nat (hi - lo + 1)) (drop (nat lo) xs))"

definition memGetScores :: "prefix \<Rightarrow> string \<Rightarrow> int \<Rightarrow> int \<Rightarrow> memCache \<Rightarrow> error + Scored list" where
  "memGetScores p name lo hi c =
     (if p \<in> set (failing c) then Inl (StoreError ''cache'')
      else Inr (rangeIncl (scoreLists c p name) lo hi))"

definition memGetCategoryScores ::
  "prefix \<Rightarrow> string \<Rightarrow> string \<Rightarrow> int \<Rightarrow> int \<Rightarrow> memCache \<Rightarrow> error + Scored list" where
  "memGetCategoryScores p name cat lo hi c =
     memGetScores p (if cat = [] then name else name @ ''/'' @ cat) lo hi c"

definition memExists :: "prefix \<Rightarrow> string list \<Rightarrow> memCache \<Rightarrow> error + int list" where
  "memExists p names c =
     (if p \<in> set (failing c) then Inl (StoreError ''cache'')
      else Inr (map (\<lambda>name. if name \<in> set (present c p) then 1 else 0) names))"

definition memAppendScores ::
  "prefix \<Rightarrow> string \<Rightarrow> Scored list \<Rightarrow> memCache \<Rightarrow> error option \<times> memCache" where
  "memAppendScores p name entries c =
     (if p \<in> set (failing c) \<or> appendFails c then (Some (StoreError ''cache''), c)
      else (None, c\<lparr>scoreLists :=
              (scoreLists c)(p := (scoreLists c p)(name := scoreLists c p name @ entries))\<rparr>))"

definition memGetUserFeedback ::
  "string \<Rightarrow> bool \<Rightarrow> string list \<Rightarrow> memData \<Rightarrow> error + Feedback slice" where
  "memGetUserFeedback uid withFuture types d =
     (if dataDown d then Inl (StoreError ''data'')
      else
        let rows = filter (\<lambda>f. UserId f = uid \<and> (types = [] \<or> FeedbackType f \<in> set types)
                              \<and> (withFuture \<or> Timestamp f \<le> storeClock d)) (feedbackRows d)
        in Inr (if rows = [] then None else Some rows))"

definition memGetItem :: "string \<Rightarrow> memData \<Rightarrow> error + Item" where
  "memGetItem iid d =
     (if dataDown d then Inl (StoreError ''data'')
      else case find (\<lambda>i. ItemItemId i = iid) (itemRows d) of
             None \<Rightarrow> Inl (StoreError ''item not found'')
           | Some i \<Rightarrow> Inr i)"

definition memBatchInsertFeedback ::
  "Feedback list \<Rightarrow> bool \<Rightarrow> bool \<Rightarrow> bool \<Rightarrow> memData \<Rightarrow> error option \<times> memData" where
  "memBatchInsertFeedback rows insertUser insertItem overwrite d =
     (if dataDown d \<or> insertFails d then (Some (StoreError ''data''), d)
      else (None, d\<lparr>feedbackRows := feedbackRows d @ rows\<rparr>))"

definition memCacheDatabase :: "memCache CacheDatabase" where
  "memCacheDatabase =
     \<lparr>getScores = memGetScores, getCategoryScores = memGetCategoryScores,
      exists = memExists, appendScores = memAppendScores\<rparr>"

definition memDataDatabase :: "memData DataDatabase" where
  "memDataDatabase =
     \<lparr>getUserFeedback = memGetUserFeedback, getItem = memGetItem,
      batchInsertFeedback = memBatchInsertFeedback\<rparr>"

definition memServer :: "string list \<Rightarrow> (memCache, memData) RestServer" where
  "memServer fallback =
     \<lparr>CacheClient = memCacheDatabase, DataClient = memDataDatabase,
      GorseConfig = \<lparr>DefaultN = 10, APIKey = [], CacheSize = 100,
                     PositiveFeedbackType = [''like''], FallbackRecommend = fallback\<rparr>,
      IsDashboard = False\<rparr>"

definition memCacheOf :: "(prefix \<times> string \<times> Scored list) list \<Rightarrow> string list \<Rightarrow> prefix list \<Rightarrow> memCache" where
  "memCacheOf tables hidden bad =
     \<lparr>scoreLists = (\<lambda>p name. case find (\<lambda>(q, m, xs). q = p \<and> m = name) tables of
                                   None \<Rightarrow> [] | Some (q, m, xs) \<Rightarrow> xs),
      present = (\<lambda>p. if p = HiddenItems then hidden else []),
      failing = bad, appendFails = False\<rparr>"

definition memWorld ::
  "(prefix \<times> string \<times> Scored list) list \<Rightarrow> string list \<Rightarrow> prefix list \<Rightarrow> bool \<Rightarrow>
     (memCache, memData) world" where
  "memWorld tables hidden bad down =
     \<lparr>cacheState = memCacheOf tables hidden bad,
      dataState = \<lparr>feedbackRows = [], itemRows = [], storeClock = 0, dataDown = down,
                   insertFails = False\<rparr>,
      trace = [], errorLog = [], ticks = 0\<rparr>"

text \<open>
  A clock whose first reading is the Unix second \<open>t0\<close> and that advances by one second
  from each reading to the next.
\<close>

definition runtimeAt :: "int \<Rightarrow> runtime" where
  "runtimeAt t0 = \<lparr>clock = (\<lambda>k. (t0 + int k) * 1000000000)\<rparr>"

definition memRuntime :: runtime where
  "memRuntime = runtimeAt 1700000000"

text \<open>Worlds and a request for the examples.\<close>

definition worldOffline4 :: "(memCache, memData) world" where
  "worldOffline4 =
     memWorld [(OfflineRecommend, ''u1'',
       [\<lparr>Id' = ''a'', Score = Finite 9\<rparr>, \<lparr>Id' = ''b'', Score = Finite 8\<rparr>,
        \<lparr>Id' = ''c'', Score = Finite 7\<rparr>, \<lparr>Id' = ''d'', Score = Finite 6\<rparr>])] [] [] False"

definition worldRepeated :: "(memCache, memData) world" where
  "worldRepeated =
     memWorld [(OfflineRecommend, ''u1'', [\<lparr>Id' = ''a'', Score = Finite 9\<rparr>, \<lparr>Id' = ''a'', Score = Finite 8\<rparr>]),
               (LatestItems, [], [\<lparr>Id' = ''b'', Score = Finite 7\<rparr>, \<lparr>Id' = ''a'', Score = Finite 6\<rparr>])]
       [] [] False"

definition worldLatest2 :: "(memCache, memData) world" where
  "worldLatest2 =
     memWorld [(LatestItems, [], [\<lparr>Id' = ''a'', Score = Finite 9\<rparr>, \<lparr>Id' = ''b'', Score = Finite 8\<rparr>])]
       [] [] False"

definition worldHidden :: "(memCache, memData) world" where
  "worldHidden = memWorld [] [''b''] [] False"

definition worldHiddenFailing :: "(memCache, memData) world" where
  "worldHiddenFailing = memWorld [] [''b''] [HiddenItems] False"

text \<open>
  Ignored items of \<open>u1\<close> with scores that are values of \<^verbatim>\<open>float32\<close>: around 1700000000 these
  are the multiples of 128.
\<close>

definition worldIgnore :: "(memCache, memData) world" where
  "worldIgnore =
     memWorld [(IgnoreItems, ''u1'',
       [\<lparr>Id' = ''x'', Score = Finite 1699999872\<rparr>, \<lparr>Id' = ''y'', Score = Finite 1700000128\<rparr>,
        \<lparr>Id' = ''z'', Score = Finite 1700000000\<rparr>])] [] [] False"

definition worldIgnoreAhead :: "(memCache, memData) world" where
  "worldIgnoreAhead =
     memWorld [(IgnoreItems, ''u1'', [\<lparr>Id' = ''g'', Score = Finite 1700000128\<rparr>])] [] [] False"

definition worldPopular2 :: "(memCache, memData) world" where
  "worldPopular2 =
     memWorld [(PopularItems, [], [\<lparr>Id' = ''a'', Score = Finite 1\<rparr>, \<lparr>Id' = ''b'', Score = Finite 1\<rparr>])]
       [] [] False"

definition worldInsertFails :: "(memCache, memData) world" where
  "worldInsertFails = worldPopular2\<lparr>dataState := (dataState worldPopular2)\<lparr>insertFails := True\<rparr>\<rparr>"

definition worldAppendFails :: "(memCache, memData) world" where
  "worldAppendFails = worldPopular2\<lparr>cacheState := (cacheState worldPopular2)\<lparr>appendFails := True\<rparr>\<rparr>"

definition feedbackOf :: "string \<Rightarrow> string \<Rightarrow> Feedback" where
  "feedbackOf uid iid =
     \<lparr>FeedbackType = ''like'', UserId = uid, ItemId = iid, Timestamp = 0, Comment = []\<rparr>"

definition itemOf :: "string \<Rightarrow> string list \<Rightarrow> Item" where
  "itemOf iid cats =
     \<lparr>ItemItemId = iid, IsHidden = False, Categories = cats, ItemTimestamp = 0,
      Labels = [], ItemComment = []\<rparr>"

text \<open>
  A world for the recommenders that work from neighbours: \<open>v\<close> and \<open>w\<close> are similar to
  \<open>u1\<close>, whose one feedback is on the item \<open>h\<close>.
\<close>

definition worldNeighbors :: "(memCache, memData) world" where
  "worldNeighbors =
     (memWorld
        [(UserNeighbors, ''u1'', [\<lparr>Id' = ''v'', Score = Finite (3 / 4)\<rparr>, \<lparr>Id' = ''w'', Score = Finite (1 / 4)\<rparr>]),
         (ItemNeighbors, ''h/books'',
            [\<lparr>Id' = ''x'', Score = Finite (1 / 8)\<rparr>, \<lparr>Id' = ''k'', Score = Finite (1 / 2)\<rparr>,
             \<lparr>Id' = ''h'', Score = Finite (7 / 8)\<rparr>])]
        [] [] False)
     \<lparr>dataState :=
        \<lparr>feedbackRows = [feedbackOf ''v'' ''x'', feedbackOf ''v'' ''y'', feedbackOf ''w'' ''z'',
                         feedbackOf ''w'' ''x'', feedbackOf ''u1'' ''h''],
         itemRows = [itemOf ''x'' [''books''], itemOf ''y'' [''music''], itemOf ''z'' [''books'']],
         storeClock = 0, dataDown = False, insertFails = False\<rparr>\<rparr>"

definition contextOf :: "string \<Rightarrow> int \<Rightarrow> recommendContext" where
  "contextOf uid n =
     \<lparr>userId = uid, category = [], userFeedback = None, n' = n, results = [],
      excludeSet = {}, numPrevStage = 0, numFromLatest = 0, numFromPopular = 0,
      numFromUserBased = 0, numFromItemBased = 0, numFromCollaborative = 0,
      numFromOffline = 0\<rparr>"

definition recommendRequest :: "string \<Rightarrow> (string \<times> string) list \<Rightarrow> Request" where
  "recommendRequest uid query =
     \<lparr>PathParameter = (\<lambda>name. if name = ''user-id'' then uid else []),
      QueryParameter = (\<lambda>name. case map_of query name of None \<Rightarrow> [] | Some v \<Rightarrow> v),
      HeaderParameter = (\<lambda>name. [])\<rparr>"

definition writeBackRequest :: Request where
  "writeBackRequest =
     recommendRequest ''u1''
       [(''n'', ''2''), (''write-back-type'', ''impression''), (''write-back-delay'', ''1'')]"

definition writeBackRequestLate :: Request where
  "writeBackRequestLate =
     recommendRequest ''u1''
       [(''n'', ''1''), (''write-back-type'', ''impression''),
        (''write-back-delay'', ''153722868'')]"

subsection \<open>Notions for the statements\<close>

text \<open>
  \<open>unseenIds ids ex\<close>: the ids of \<open>ids\<close>, in their order, that are neither in \<open>ex\<close> nor
  earlier in \<open>ids\<close>.
\<close>

fun unseenIds :: "string list \<Rightarrow> string set \<Rightarrow> string list" where
  "unseenIds [] ex = []"
| "unseenIds (i # ids) ex =
     (if i \<in> ex then unseenIds ids ex else i # unseenIds ids (insert i ex))"

text \<open>A candidate map with one pair for each key and no excluded key.\<close>

definition fresh :: "recommendContext \<Rightarrow> (string \<times> score) list \<Rightarrow> bool" where
  "fresh ctx m \<longleftrightarrow> distinct (map fst m) \<and> fst ` set m \<inter> excludeSet ctx = {}"

text \<open>The counter of a stage, and the sum of the six counters.\<close>

fun counterOf :: "stage \<Rightarrow> recommendContext \<Rightarrow> int" where
  "counterOf Offline = numFromOffline"
| "counterOf Collaborative = numFromCollaborative"
| "counterOf ItemBased = numFromItemBased"
| "counterOf UserBased = numFromUserBased"
| "counterOf Latest = numFromLatest"
| "counterOf Popular = numFromPopular"

definition sumCounters :: "recommendContext \<Rightarrow> int" where
  "sumCounters ctx =
     numFromOffline ctx + numFromCollaborative ctx + numFromItemBased ctx +
     numFromUserBased ctx + numFromLatest ctx + numFromPopular ctx"

text \<open>
  What a stage that ran did to the context: it appended new, pairwise different ids that
  were not excluded, excluded them, and set its own counter.
\<close>

definition extended :: "stage \<Rightarrow> recommendContext \<Rightarrow> recommendContext \<Rightarrow> bool" where
  "extended st ctx ctx' \<longleftrightarrow>
     (\<exists>ids. distinct ids \<and> set ids \<inter> excludeSet ctx = {} \<and>
        results ctx' = results ctx @ ids \<and>
        excludeSet ctx \<union> set ids \<subseteq> excludeSet ctx' \<and>
        n' ctx' = n' ctx \<and>
        numPrevStage ctx' = int (length (results ctx')) \<and>
        counterOf st ctx' = int (length (results ctx')) - numPrevStage ctx \<and>
        (\<forall>st'. st' \<noteq> st \<longrightarrow> counterOf st' ctx' = counterOf st' ctx))"

text \<open>What loading the feedback of the user leaves as it was.\<close>

definition sameResults :: "recommendContext \<Rightarrow> recommendContext \<Rightarrow> bool" where
  "sameResults ctx ctx1 \<longleftrightarrow>
     results ctx1 = results ctx \<and> n' ctx1 = n' ctx \<and> numPrevStage ctx1 = numPrevStage ctx \<and>
     excludeSet ctx \<subseteq> excludeSet ctx1 \<and>
     numFromOffline ctx1 = numFromOffline ctx \<and>
     numFromCollaborative ctx1 = numFromCollaborative ctx \<and>
     numFromItemBased ctx1 = numFromItemBased ctx \<and>
     numFromUserBased ctx1 = numFromUserBased ctx \<and>
     numFromLatest ctx1 = numFromLatest ctx \<and> numFromPopular ctx1 = numFromPopular ctx \<and>
     userId ctx1 = userId ctx \<and> category ctx1 = category ctx"

definition wellFormed :: "recommendContext \<Rightarrow> bool" where
  "wellFormed ctx \<longleftrightarrow> distinct (results ctx) \<and> set (results ctx) \<subseteq> excludeSet ctx"

definition counted :: "stage set \<Rightarrow> recommendContext \<Rightarrow> bool" where
  "counted D ctx \<longleftrightarrow>
     numPrevStage ctx = int (length (results ctx)) \<and>
     sumCounters ctx = int (length (results ctx)) \<and>
     (\<forall>st. st \<notin> D \<longrightarrow> counterOf st ctx = 0)"

text \<open>The sum of the counters and the number of results of a returned context.\<close>

fun stats :: "recommendContext outcome \<Rightarrow> (int \<times> nat) option" where
  "stats (Return ctx) = Some (sumCounters ctx, length (results ctx))"
| "stats (Fail e) = None"
| "stats Panic = None"

text \<open>The calls that only read a store.\<close>

fun isRead :: "call \<Rightarrow> bool" where
  "isRead (CallGetScores p name lo hi) = True"
| "isRead (CallGetCategoryScores p name cat lo hi) = True"
| "isRead (CallExists p names) = True"
| "isRead (CallGetUserFeedback uid withFuture types) = True"
| "isRead (CallGetItem iid) = True"
| "isRead (CallAppendScores p name entries) = False"
| "isRead (CallSetInt p name v) = False"
| "isRead (CallSetTime p name t) = False"
| "isRead (CallDelete p name) = False"
| "isRead (CallBatchInsertFeedback rows insertUser insertItem overwrite) = False"

text \<open>
  \<open>readOnly w w'\<close>: from \<open>w\<close> to \<open>w'\<close> both stores kept their state and every call made
  was a read. \<open>readsOnly m\<close>: the program \<open>m\<close> does so from every world.
\<close>

definition readOnly :: "('c, 'd) world \<Rightarrow> ('c, 'd) world \<Rightarrow> bool" where
  "readOnly w w' \<longleftrightarrow>
     cacheState w' = cacheState w \<and> dataState w' = dataState w \<and>
     prefix (trace w) (trace w') \<and> list_all isRead (drop (length (trace w)) (trace w'))"

definition readsOnly :: "('a, 'c, 'd) prog \<Rightarrow> bool" where
  "readsOnly m \<longleftrightarrow> (\<forall>w. readOnly w (snd (m w)))"

text \<open>The exclusion set of a returned context, and what a program left in the two stores.\<close>

fun excluded :: "recommendContext outcome \<Rightarrow> string set option" where
  "excluded (Return ctx) = Some (excludeSet ctx)"
| "excluded (Fail e) = None"
| "excluded Panic = None"

definition ignoredOf :: "'a outcome \<times> (memCache, memData) world \<Rightarrow> string \<Rightarrow> Scored list" where
  "ignoredOf r uid = scoreLists (cacheState (snd r)) IgnoreItems uid"

definition rowsOf :: "'a outcome \<times> (memCache, memData) world \<Rightarrow> Feedback list" where
  "rowsOf r = feedbackRows (dataState (snd r))"

text \<open>
  The write-back as the claim words it, on the operations of the two stores. For each item
  id in order: the row \<open>{userId, itemId, T, timestamp}\<close>, whose timestamp is the reading of the
  clock taken for this item plus \<open>D\<close> minutes, goes to \<^verbatim>\<open>BatchInsertFeedback\<close> of the data
  store with the three flags false; then the id, with the Unix seconds of that timestamp as
  a \<^verbatim>\<open>float32\<close> score, goes to \<^verbatim>\<open>AppendScores\<close> of the cache under the ignored items of the user.
  Each call is recorded, each store keeps the state its operation returns, and the first
  error ends the write-back.
\<close>

definition writeBackRow :: "string \<Rightarrow> string \<Rightarrow> instant \<Rightarrow> int \<Rightarrow> string \<Rightarrow> Feedback" where
  "writeBackRow uid t reading d iid =
     \<lparr>FeedbackType = t, UserId = uid, ItemId = iid,
      Timestamp = reading + d * 60 * 1000000000, Comment = []\<rparr>"

definition writeBackEntry :: "Feedback \<Rightarrow> Scored" where
  "writeBackEntry row =
     \<lparr>Id' = ItemId row, Score = round32 (of_int (Timestamp row div 1000000000))\<rparr>"

fun writeBackSpec ::
  "('c, 'd) RestServer \<Rightarrow> runtime \<Rightarrow> string \<Rightarrow> string \<Rightarrow> int \<Rightarrow> string list \<Rightarrow> (unit, 'c, 'd) prog" where
  "writeBackSpec s rt uid t d [] w = (Return (), w)"
| "writeBackSpec s rt uid t d (iid # ids) w =
     (let row = writeBackRow uid t (clock rt (ticks w)) d iid;
          inserted = CallBatchInsertFeedback [row] False False False;
          appended = CallAppendScores IgnoreItems uid [writeBackEntry row]
      in case batchInsertFeedback (DataClient s) [row] False False False (dataState w) of
           (Some err, d') \<Rightarrow>
             (Fail err, w\<lparr>dataState := d', trace := trace w @ [inserted], ticks := Suc (ticks w)\<rparr>)
         | (None, d') \<Rightarrow>
             (case appendScores (CacheClient s) IgnoreItems uid [writeBackEntry row] (cacheState w) of
                (Some err, c') \<Rightarrow>
                  (Fail err, w\<lparr>dataState := d', cacheState := c',
                              trace := trace w @ [inserted, appended], ticks := Suc (ticks w)\<rparr>)
              | (None, c') \<Rightarrow>
                  writeBackSpec s rt uid t d ids
                    (w\<lparr>dataState := d', cacheState := c',
                       trace := trace w @ [inserted, appended], ticks := Suc (ticks w)\<rparr>)))"

section \<open>Properties\<close>

subsection \<open>Basic facts\<close>

lemma bind_Return:
  "bind m f w = (Return b, w') \<longleftrightarrow> (\<exists>a w1. m w = (Return a, w1) \<and> f a w1 = (Return b, w'))"
  by (auto simp: bind_def split: prod.splits outcome.splits)

lemma ret_Return [simp]: "ret a w = (Return b, w') \<longleftrightarrow> a = b \<and> w = w'"
  by (auto simp: ret_def)

lemma set_unseenIds: "set (unseenIds ids ex) = set ids - ex"
  by (induction ids arbitrary: ex) auto

lemma distinct_unseenIds: "distinct (unseenIds ids ex)"
  by (induction ids arbitrary: ex) (auto simp: set_unseenIds)

lemma appendUnseen_eq:
  "appendUnseen items ctx =
     ctx\<lparr>results := results ctx @ unseenIds (map Id' items) (excludeSet ctx),
         excludeSet := excludeSet ctx \<union> Id' ` set items\<rparr>"
  by (induction items arbitrary: ctx) (simp_all add: insert_absorb)

lemma fst_addScore: "fst ` set (addScore k v m) = insert k (fst ` set m)"
  by (induction k v m rule: addScore.induct) (auto simp: insert_commute)

lemma distinct_addScore: "distinct (map fst m) \<Longrightarrow> distinct (map fst (addScore k v m))"
  by (induction k v m rule: addScore.induct) (auto simp: fst_addScore)

lemma set_topK: "set (topK k m) \<subseteq> fst ` set m"
  by (auto simp: topK_def dest!: in_set_takeD)

lemma distinct_topK: "distinct (map fst m) \<Longrightarrow> distinct (topK k m)"
  unfolding topK_def take_map [symmetric]
  by (rule distinct_take) (simp add: distinct_map)

lemma length_topK: "length (topK k m) \<le> nat k"
  by (simp add: topK_def)

lemma fresh_Nil [simp]: "fresh ctx []"
  by (simp add: fresh_def)

lemma fresh_addScore: "fresh ctx m \<Longrightarrow> k \<notin> excludeSet ctx \<Longrightarrow> fresh ctx (addScore k v m)"
  by (auto simp: fresh_def fst_addScore distinct_addScore)

lemma unseenFeedbackLoop_fresh:
  "unseenFeedbackLoop s ctx user fbs m w = (Return m', w') \<Longrightarrow> fresh ctx m \<Longrightarrow> fresh ctx m'"
proof (induction fbs arbitrary: m w)
  case Nil
  then show ?case by simp
next
  case (Cons f fbs)
  then show ?case
    by (auto simp: bind_Return fresh_addScore split: if_splits)
qed

lemma similarUsersLoop_fresh:
  "similarUsersLoop s ctx users m w = (Return m', w') \<Longrightarrow> fresh ctx m \<Longrightarrow> fresh ctx m'"
proof (induction users arbitrary: m w)
  case Nil
  then show ?case by simp
next
  case (Cons u users)
  then show ?case
    by (auto simp: bind_Return dest: unseenFeedbackLoop_fresh)
qed

lemma unseenItemsLoop_fresh: "fresh ctx m \<Longrightarrow> fresh ctx (unseenItemsLoop ctx items m)"
  by (induction items arbitrary: m) (auto simp: fresh_addScore)

lemma similarItemsLoop_fresh:
  "similarItemsLoop s ctx fbs m w = (Return m', w') \<Longrightarrow> fresh ctx m \<Longrightarrow> fresh ctx m'"
proof (induction fbs arbitrary: m w)
  case Nil
  then show ?case by simp
next
  case (Cons f fbs)
  then show ?case
    by (auto simp: bind_Return dest: unseenItemsLoop_fresh)
qed

lemma extendedI:
  assumes "results ctx' = results ctx @ ids" "distinct ids" "set ids \<inter> excludeSet ctx = {}"
    "excludeSet ctx \<union> set ids \<subseteq> excludeSet ctx'" "n' ctx' = n' ctx"
    "numPrevStage ctx' = int (length (results ctx'))"
    "counterOf st ctx' = int (length (results ctx')) - numPrevStage ctx"
    "\<And>st'. st' \<noteq> st \<Longrightarrow> counterOf st' ctx' = counterOf st' ctx"
  shows "extended st ctx ctx'"
  unfolding extended_def using assms by blast

lemma requireUserFeedback_effect:
  "requireUserFeedback s ctx w = (Return ctx1, w1) \<Longrightarrow> sameResults ctx ctx1"
  by (auto simp: requireUserFeedback_def sameResults_def bind_Return split: option.splits)

lemma all_stage:
  "(\<forall>st. P st) \<longleftrightarrow>
     P Offline \<and> P Collaborative \<and> P ItemBased \<and> P UserBased \<and> P Latest \<and> P Popular"
  by (metis stage.exhaust)

lemma extended_after:
  assumes same: "sameResults ctx ctx1"
    and ids: "distinct ids" "set ids \<inter> excludeSet ctx1 = {}"
    and res: "results ctx' = results ctx1 @ ids"
    and ex: "excludeSet ctx1 \<union> set ids \<subseteq> excludeSet ctx'"
    and n: "n' ctx' = n' ctx1"
    and prev: "numPrevStage ctx' = int (length (results ctx'))"
    and cnt: "counterOf st ctx' = int (length (results ctx')) - numPrevStage ctx1"
    and other: "\<forall>st'. st' \<noteq> st \<longrightarrow> counterOf st' ctx' = counterOf st' ctx1"
  shows "extended st ctx ctx'"
proof (rule extendedI [where ids = ids])
  show "results ctx' = results ctx @ ids"
    using same res by (simp add: sameResults_def)
  show "distinct ids" by fact
  show "set ids \<inter> excludeSet ctx = {}"
    using same ids(2) by (auto simp: sameResults_def)
  show "excludeSet ctx \<union> set ids \<subseteq> excludeSet ctx'"
    using same ex by (auto simp: sameResults_def)
  show "n' ctx' = n' ctx"
    using same n by (simp add: sameResults_def)
  show "numPrevStage ctx' = int (length (results ctx'))" by fact
  show "counterOf st ctx' = int (length (results ctx')) - numPrevStage ctx"
    using cnt same by (simp add: sameResults_def)
  show "counterOf st' ctx' = counterOf st' ctx" if "st' \<noteq> st" for st'
    using other [rule_format, OF that] same by (simp add: sameResults_def all_stage) (cases st', simp_all)
qed

lemma sameResults_refl: "sameResults ctx ctx"
  by (simp add: sameResults_def)

lemma unseen_disjoint: "set (unseenIds ids ex) \<inter> ex = {}"
  by (auto simp: set_unseenIds)

lemma Offline_effect:
  assumes "RecommendOffline s ctx w = (Return ctx', w')"
  shows "ctx' = ctx \<or> extended Offline ctx ctx'"
proof (cases "int (length (results ctx)) < n' ctx")
  case False
  with assms show ?thesis by (simp add: RecommendOffline_def)
next
  case True
  with assms obtain items where
    "ctx' = (appendUnseen items ctx)
       \<lparr>numFromOffline := int (length (results (appendUnseen items ctx)))
                          - numPrevStage (appendUnseen items ctx),
        numPrevStage := int (length (results (appendUnseen items ctx)))\<rparr>"
    by (auto simp: RecommendOffline_def bind_Return Let_def)
  then have "extended Offline ctx ctx'"
    by (intro extended_after [where ids = "unseenIds (map Id' items) (excludeSet ctx)",
          OF sameResults_refl distinct_unseenIds unseen_disjoint])
      (simp_all add: appendUnseen_eq set_unseenIds all_stage)
  then show ?thesis ..
qed

lemma Collaborative_effect:
  assumes "RecommendCollaborative s ctx w = (Return ctx', w')"
  shows "ctx' = ctx \<or> extended Collaborative ctx ctx'"
proof (cases "int (length (results ctx)) < n' ctx")
  case False
  with assms show ?thesis by (simp add: RecommendCollaborative_def)
next
  case True
  with assms obtain items where
    "ctx' = (appendUnseen items ctx)
       \<lparr>numFromCollaborative := int (length (results (appendUnseen items ctx)))
                          - numPrevStage (appendUnseen items ctx),
        numPrevStage := int (length (results (appendUnseen items ctx)))\<rparr>"
    by (auto simp: RecommendCollaborative_def bind_Return Let_def)
  then have "extended Collaborative ctx ctx'"
    by (intro extended_after [where ids = "unseenIds (map Id' items) (excludeSet ctx)",
          OF sameResults_refl distinct_unseenIds unseen_disjoint])
      (simp_all add: appendUnseen_eq set_unseenIds all_stage)
  then show ?thesis ..
qed

lemma Latest_effect:
  assumes "RecommendLatest s ctx w = (Return ctx', w')"
  shows "ctx' = ctx \<or> extended Latest ctx ctx'"
proof (cases "int (length (results ctx)) < n' ctx")
  case False
  with assms show ?thesis by (simp add: RecommendLatest_def)
next
  case True
  with assms obtain ctx1 items where same: "sameResults ctx ctx1" and
    "ctx' = (appendUnseen items ctx1)
       \<lparr>numFromLatest := int (length (results (appendUnseen items ctx1)))
                          - numPrevStage (appendUnseen items ctx1),
        numPrevStage := int (length (results (appendUnseen items ctx1)))\<rparr>"
    by (auto simp: RecommendLatest_def bind_Return Let_def dest: requireUserFeedback_effect)
  then have "extended Latest ctx ctx'"
    by (intro extended_after [where ids = "unseenIds (map Id' items) (excludeSet ctx1)",
          OF same distinct_unseenIds unseen_disjoint])
      (simp_all add: appendUnseen_eq set_unseenIds all_stage)
  then show ?thesis ..
qed

lemma Popular_effect:
  assumes "RecommendPopular s ctx w = (Return ctx', w')"
  shows "ctx' = ctx \<or> extended Popular ctx ctx'"
proof (cases "int (length (results ctx)) < n' ctx")
  case False
  with assms show ?thesis by (simp add: RecommendPopular_def)
next
  case True
  with assms obtain ctx1 items where same: "sameResults ctx ctx1" and
    "ctx' = (appendUnseen items ctx1)
       \<lparr>numFromPopular := int (length (results (appendUnseen items ctx1)))
                          - numPrevStage (appendUnseen items ctx1),
        numPrevStage := int (length (results (appendUnseen items ctx1)))\<rparr>"
    by (auto simp: RecommendPopular_def bind_Return Let_def dest: requireUserFeedback_effect)
  then have "extended Popular ctx ctx'"
    by (intro extended_after [where ids = "unseenIds (map Id' items) (excludeSet ctx1)",
          OF same distinct_unseenIds unseen_disjoint])
      (simp_all add: appendUnseen_eq set_unseenIds all_stage)
  then show ?thesis ..
qed

lemma fresh_topK:
  assumes "fresh ctx m"
  shows "distinct (topK k m)" and "set (topK k m) \<inter> excludeSet ctx = {}"
  using assms set_topK [of k m] by (auto simp: fresh_def distinct_topK)

lemma UserBased_effect:
  assumes "RecommendUserBased s ctx w = (Return ctx', w')"
  shows "ctx' = ctx \<or> extended UserBased ctx ctx'"
proof (cases "int (length (results ctx)) < n' ctx")
  case False
  with assms show ?thesis by (simp add: RecommendUserBased_def)
next
  case True
  with assms obtain ctx1 m k where same: "sameResults ctx ctx1" and m: "fresh ctx1 m" and
    "ctx' = ctx1
       \<lparr>results := results ctx1 @ topK k m,
        excludeSet := excludeSet ctx1 \<union> set (topK k m),
        numFromUserBased := int (length (results ctx1 @ topK k m)) - numPrevStage ctx1,
        numPrevStage := int (length (results ctx1 @ topK k m))\<rparr>"
    by (auto simp: RecommendUserBased_def bind_Return Let_def
        dest!: requireUserFeedback_effect similarUsersLoop_fresh)
  then have "extended UserBased ctx ctx'"
    by (intro extended_after [OF same fresh_topK [OF m]]) (auto simp: all_stage)
  then show ?thesis ..
qed

lemma ItemBased_effect:
  assumes "RecommendItemBased s ctx w = (Return ctx', w')"
  shows "ctx' = ctx \<or> extended ItemBased ctx ctx'"
proof (cases "int (length (results ctx)) < n' ctx")
  case False
  with assms show ?thesis by (simp add: RecommendItemBased_def)
next
  case True
  with assms obtain ctx1 m k where same: "sameResults ctx ctx1" and m: "fresh ctx1 m" and
    "ctx' = ctx1
       \<lparr>results := results ctx1 @ topK k m,
        excludeSet := excludeSet ctx1 \<union> set (topK k m),
        numFromItemBased := int (length (results ctx1 @ topK k m)) - numPrevStage ctx1,
        numPrevStage := int (length (results ctx1 @ topK k m))\<rparr>"
    by (auto simp: RecommendItemBased_def bind_Return Let_def
        dest!: requireUserFeedback_effect similarItemsLoop_fresh)
  then have "extended ItemBased ctx ctx'"
    by (intro extended_after [OF same fresh_topK [OF m]]) (auto simp: all_stage)
  then show ?thesis ..
qed

lemma stage_effect:
  "recommenderOf s st ctx w = (Return ctx', w') \<Longrightarrow> ctx' = ctx \<or> extended st ctx ctx'"
  by (cases st)
    (auto dest: Offline_effect Collaborative_effect ItemBased_effect UserBased_effect
      Latest_effect Popular_effect)

lemma stage_saturated:
  "n' ctx \<le> int (length (results ctx)) \<Longrightarrow> recommenderOf s st ctx = ret ctx"
  by (cases st)
    (simp_all add: RecommendOffline_def RecommendCollaborative_def RecommendItemBased_def
      RecommendUserBased_def RecommendLatest_def RecommendPopular_def)

lemma bind_ret [simp]: "bind (ret a) f = f a"
  by (rule ext) (simp add: bind_def ret_def)

lemma extended_wellFormed: "extended st ctx ctx' \<Longrightarrow> wellFormed ctx \<Longrightarrow> wellFormed ctx'"
  unfolding extended_def wellFormed_def by (elim exE conjE) (simp, blast)

lemma sumCounters_other:
  assumes "\<forall>st'. st' \<noteq> st \<longrightarrow> counterOf st' b = counterOf st' a"
  shows "sumCounters b = sumCounters a - counterOf st a + counterOf st b"
proof (cases st)
  case Offline
  with assms show ?thesis by (simp add: sumCounters_def all_stage)
next
  case Collaborative
  with assms show ?thesis by (simp add: sumCounters_def all_stage)
next
  case ItemBased
  with assms show ?thesis by (simp add: sumCounters_def all_stage)
next
  case UserBased
  with assms show ?thesis by (simp add: sumCounters_def all_stage)
next
  case Latest
  with assms show ?thesis by (simp add: sumCounters_def all_stage)
next
  case Popular
  with assms show ?thesis by (simp add: sumCounters_def all_stage)
qed

lemma extended_counted:
  assumes ext: "extended st ctx ctx'" and cnt: "counted D ctx" and st: "st \<notin> D"
  shows "counted (insert st D) ctx'"
proof -
  from ext obtain ids where
    res: "results ctx' = results ctx @ ids" and
    prev: "numPrevStage ctx' = int (length (results ctx'))" and
    own: "counterOf st ctx' = int (length (results ctx')) - numPrevStage ctx" and
    other: "\<forall>st'. st' \<noteq> st \<longrightarrow> counterOf st' ctx' = counterOf st' ctx"
    unfolding extended_def by blast
  from cnt have p: "numPrevStage ctx = int (length (results ctx))"
    and sum: "sumCounters ctx = int (length (results ctx))"
    and zero: "\<forall>st. st \<notin> D \<longrightarrow> counterOf st ctx = 0"
    unfolding counted_def by blast+
  from zero st have "counterOf st ctx = 0" by blast
  with sumCounters_other [OF other] own p sum
  have "sumCounters ctx' = int (length (results ctx'))" by simp
  moreover have "\<forall>st'. st' \<notin> insert st D \<longrightarrow> counterOf st' ctx' = 0"
    using other zero by auto
  ultimately show ?thesis using prev unfolding counted_def by blast
qed

lemma counted_mono: "counted D ctx \<Longrightarrow> D \<subseteq> D' \<Longrightarrow> counted D' ctx"
  by (auto simp: counted_def)

lemma run_wellFormed:
  "runRecommenders (map (recommenderOf s) sts) ctx w = (Return ctx', w') \<Longrightarrow>
     wellFormed ctx \<Longrightarrow> wellFormed ctx'"
proof (induction sts arbitrary: ctx w)
  case Nil
  then show ?case by simp
next
  case (Cons st sts)
  from Cons.prems(1) obtain ctx1 w1 where
    st: "recommenderOf s st ctx w = (Return ctx1, w1)" and
    run: "runRecommenders (map (recommenderOf s) sts) ctx1 w1 = (Return ctx', w')"
    by (auto simp: bind_Return)
  from stage_effect [OF st] Cons.prems(2) have "wellFormed ctx1"
    by (auto dest: extended_wellFormed)
  with Cons.IH [OF run] show ?case .
qed

lemma run_counted:
  "runRecommenders (map (recommenderOf s) sts) ctx w = (Return ctx', w') \<Longrightarrow>
     distinct sts \<Longrightarrow> set sts \<inter> D = {} \<Longrightarrow> counted D ctx \<Longrightarrow> counted (D \<union> set sts) ctx'"
proof (induction sts arbitrary: ctx w D)
  case Nil
  then show ?case by simp
next
  case (Cons st sts)
  from Cons.prems(1) obtain ctx1 w1 where
    st: "recommenderOf s st ctx w = (Return ctx1, w1)" and
    run: "runRecommenders (map (recommenderOf s) sts) ctx1 w1 = (Return ctx', w')"
    by (auto simp: bind_Return)
  have "st \<notin> D" using Cons.prems(3) by simp
  with stage_effect [OF st] Cons.prems(4) have "counted (insert st D) ctx1"
    by (auto dest: extended_counted intro: counted_mono)
  moreover have "distinct sts" "set sts \<inter> insert st D = {}"
    using Cons.prems(2,3) by auto
  ultimately have "counted (insert st D \<union> set sts) ctx'"
    using Cons.IH [OF run] by blast
  then show ?case by simp
qed

lemma run_saturated:
  "n' ctx \<le> int (length (results ctx)) \<Longrightarrow>
     runRecommenders (map (recommenderOf s) sts) ctx = ret ctx"
  by (induction sts) (simp_all add: stage_saturated)

lemma run_n: 
  "runRecommenders (map (recommenderOf s) sts) ctx w = (Return ctx', w') \<Longrightarrow> n' ctx' = n' ctx"
proof (induction sts arbitrary: ctx w)
  case Nil
  then show ?case by simp
next
  case (Cons st sts)
  from Cons.prems(1) obtain ctx1 w1 where
    st: "recommenderOf s st ctx w = (Return ctx1, w1)" and
    run: "runRecommenders (map (recommenderOf s) sts) ctx1 w1 = (Return ctx', w')"
    by (auto simp: bind_Return)
  from stage_effect [OF st] have "n' ctx1 = n' ctx"
    by (auto simp: extended_def)
  with Cons.IH [OF run] show ?case by simp
qed

text \<open>
  The loop over the ignored items always returns: it takes one reading of the clock for each
  entry, and the entry at index \<open>i\<close> is compared with the reading number \<open>i\<close> of the loop.
\<close>

lemma ignoreLoop_run:
  "ignoreLoop rt items ex w =
     (Return (ex \<union> {Id' (items ! i) | i. i < length items \<and>
                 le32 (Score (items ! i)) (float32 (Unix (clock rt (ticks w + i))))}),
      w\<lparr>ticks := ticks w + length items\<rparr>)"
proof (induction items arbitrary: ex w)
  case Nil
  then show ?case by (simp add: ret_def)
next
  case (Cons item items)
  let ?P = "\<lambda>i. le32 (Score ((item # items) ! i)) (float32 (Unix (clock rt (ticks w + i))))"
  have split: "{Id' ((item # items) ! i) | i. i < length (item # items) \<and> ?P i} =
      (if ?P 0 then {Id' item} else {}) \<union>
      {Id' (items ! j) | j. j < length items \<and> ?P (Suc j)}"
  proof (intro equalityI subsetI)
    fix x assume "x \<in> {Id' ((item # items) ! i) | i. i < length (item # items) \<and> ?P i}"
    then obtain i where i: "x = Id' ((item # items) ! i)" "i < length (item # items)" "?P i"
      by blast
    show "x \<in> (if ?P 0 then {Id' item} else {}) \<union>
      {Id' (items ! j) | j. j < length items \<and> ?P (Suc j)}"
    proof (cases i)
      case 0
      with i show ?thesis by simp
    next
      case (Suc j)
      with i have "x = Id' (items ! j)" "j < length items" "?P (Suc j)" by simp_all
      then show ?thesis by blast
    qed
  next
    fix x assume "x \<in> (if ?P 0 then {Id' item} else {}) \<union>
      {Id' (items ! j) | j. j < length items \<and> ?P (Suc j)}"
    then consider "?P 0" "x = Id' item"
      | j where "x = Id' (items ! j)" "j < length items" "?P (Suc j)"
      by (auto split: if_splits)
    then show "x \<in> {Id' ((item # items) ! i) | i. i < length (item # items) \<and> ?P i}"
    proof cases
      case 1
      then have "x = Id' ((item # items) ! 0) \<and> 0 < length (item # items) \<and> ?P 0" by simp
      then show ?thesis by blast
    next
      case 2
      then have "x = Id' ((item # items) ! Suc j) \<and> Suc j < length (item # items) \<and> ?P (Suc j)"
        by simp
      then show ?thesis by blast
    qed
  qed
  show ?case
    unfolding split
    by (simp add: bind_def Now_def Cons.IH)
qed

lemma ignoreLoop_same_second:
  assumes "\<forall>i < length items. Unix (clock rt (ticks w + i)) = t"
  shows "fst (ignoreLoop rt items ex w) =
     Return (ex \<union> Id' ` {item \<in> set items. le32 (Score item) (float32 t)})"
proof -
  have "{Id' (items ! i) | i. i < length items \<and>
           le32 (Score (items ! i)) (float32 (Unix (clock rt (ticks w + i))))} =
        Id' ` {item \<in> set items. le32 (Score item) (float32 t)}"
    using assms by (auto simp: in_set_conv_nth)
  then show ?thesis by (simp add: ignoreLoop_run)
qed

lemma create_fresh:
  assumes "createRecommendContext s rt uid cat n w = (Return ctx, w')"
  shows "results ctx = []" "n' ctx = n" "counted {} ctx" "wellFormed ctx"
  using assms
  by (auto simp: createRecommendContext_def bind_Return counted_def wellFormed_def
      sumCounters_def all_stage)

subsection \<open>Evaluation\<close>

lemmas run_defs = bind_def ret_def answer_def logged_def logError_def elems_def
  GetScores_def GetCategoryScores_def Exists_def AppendScores_def GetUserFeedback_def
  GetItem_def BatchInsertFeedback_def createRecommendContext_def requireUserFeedback_def
  RemoveScores_def filterOutHiddenScores_def filterOutHiddenFeedback_def topK_def
  RecommendOffline_def RecommendCollaborative_def RecommendUserBased_def
  RecommendItemBased_def RecommendLatest_def RecommendPopular_def
  truncateResults_def recommendRun_def Recommend_def Unix_def wrap64_def Minute_def Let_def

lemmas mem_defs = memGetScores_def memGetCategoryScores_def memExists_def memAppendScores_def
  memGetUserFeedback_def memGetItem_def memBatchInsertFeedback_def memCacheDatabase_def
  memDataDatabase_def memServer_def rangeIncl_def memCacheOf_def memWorld_def memRuntime_def

lemmas http_defs = getRecommend_def sendResults_def ParseInt_def Atoi_def isDigit_def auth_def
  InsertFeedbackToCache_def

lemmas f32 = float32_def round32_def exponentOf_def pow2_def roundHalfEven_def bitlen.simps

lemma fst_Return: "fst (m w) = Return a \<Longrightarrow> \<exists>w'. m w = (Return a, w')"
  by (cases "m w") simp

lemma truncate_Return:
  "truncateResults n ctx w = (Return ctx', w') \<Longrightarrow>
     w' = w \<and> 0 \<le> n \<and> ctx' = ctx\<lparr>results := take (nat n) (results ctx)\<rparr>"
  by (auto simp: truncateResults_def split: if_splits)

lemma recommendRun_Return:
  assumes "recommendRun s rt uid cat n recommenders w = (Return ctx, w')"
  obtains ctx0 w0 ctx1 where
    "createRecommendContext s rt uid cat n w = (Return ctx0, w0)"
    "runRecommenders recommenders ctx0 w0 = (Return ctx1, w')"
    "0 \<le> n" "ctx = ctx1\<lparr>results := take (nat n) (results ctx1)\<rparr>"
  using assms unfolding recommendRun_def bind_Return
  by (auto dest!: truncate_Return)

lemma Recommend_Return:
  assumes "Recommend s rt uid cat n recommenders w = (Return rs, w')"
  obtains ctx where "recommendRun s rt uid cat n recommenders w = (Return ctx, w')" "rs = results ctx"
  using assms unfolding Recommend_def bind_Return by auto

subsection \<open>The length of the results\<close>

text \<open>
  Claim C3. The list that the driver \<^verbatim>\<open>Recommend\<close> returns has at most \<open>n\<close> elements, whatever
  the recommenders are. A context whose results have reached the length \<open>n\<close> goes through
  any chain of the six recommenders as it is: every one of them returns without an error,
  without a call to a store and without a change of the context.
\<close>

theorem results_at_most_n:
  "(fst (Recommend s rt uid cat n recommenders w) = Return rs \<longrightarrow> int (length rs) \<le> n) \<and>
   (n' ctx \<le> int (length (results ctx)) \<longrightarrow>
      runRecommenders (map (recommenderOf s) sts) ctx w = (Return ctx, w))"
proof (intro conjI impI)
  assume "fst (Recommend s rt uid cat n recommenders w) = Return rs"
  then obtain w' where "Recommend s rt uid cat n recommenders w = (Return rs, w')"
    by (auto dest: fst_Return)
  then obtain ctx where run: "recommendRun s rt uid cat n recommenders w = (Return ctx, w')"
    and rs: "rs = results ctx"
    by (rule Recommend_Return)
  from run obtain ctx1 where "0 \<le> n" "ctx = ctx1\<lparr>results := take (nat n) (results ctx1)\<rparr>"
    by (rule recommendRun_Return)
  with rs show "int (length rs) \<le> n" by simp
next
  assume "n' ctx \<le> int (length (results ctx))"
  then show "runRecommenders (map (recommenderOf s) sts) ctx w = (Return ctx, w)"
    by (simp add: run_saturated ret_def)
qed

theorem results_at_most_n_witness:
  "fst (Recommend (memServer [''latest'']) memRuntime ''u1'' [] 3
         (map (recommenderOf (memServer [''latest''])) [Offline, Latest]) worldOffline4)
     = Return [''a'', ''b'', ''c''] \<and>
   int (length [''a'', ''b'', ''c'']) \<le> 3 \<and>
   n' ((contextOf ''u1'' 3)\<lparr>results := [''a'', ''b'', ''c'']\<rparr>)
     \<le> int (length (results ((contextOf ''u1'' 3)\<lparr>results := [''a'', ''b'', ''c'']\<rparr>))) \<and>
   runRecommenders (map (recommenderOf (memServer [''latest''])) [Latest, Popular, UserBased])
       ((contextOf ''u1'' 3)\<lparr>results := [''a'', ''b'', ''c'']\<rparr>) worldOffline4 =
     (Return ((contextOf ''u1'' 3)\<lparr>results := [''a'', ''b'', ''c'']\<rparr>), worldOffline4)"
proof -
  have e: "fst (Recommend (memServer [''latest'']) memRuntime ''u1'' [] 3
         (map (recommenderOf (memServer [''latest''])) [Offline, Latest]) worldOffline4)
     = Return [''a'', ''b'', ''c'']"
    by (simp add: run_defs mem_defs worldOffline4_def contextOf_def)
  have h: "n' ((contextOf ''u1'' 3)\<lparr>results := [''a'', ''b'', ''c'']\<rparr>)
     \<le> int (length (results ((contextOf ''u1'' 3)\<lparr>results := [''a'', ''b'', ''c'']\<rparr>)))"
    by (simp add: contextOf_def)
  from results_at_most_n [where s = "memServer [''latest'']" and rt = memRuntime
      and uid = "''u1''" and cat = "[]" and n = 3 and w = worldOffline4
      and recommenders = "map (recommenderOf (memServer [''latest''])) [Offline, Latest]"
      and rs = "[''a'', ''b'', ''c'']"
      and ctx = "(contextOf ''u1'' 3)\<lparr>results := [''a'', ''b'', ''c'']\<rparr>"
      and sts = "[Latest, Popular, UserBased]"] e h
  show ?thesis by blast
qed

lemma fst_bind_Return:
  "fst (bind m f w) = Return b \<Longrightarrow> \<exists>a w1 w'. m w = (Return a, w1) \<and> f a w1 = (Return b, w')"
  by (auto dest!: fst_Return simp: bind_Return)

lemma stats_Some:
  "stats r = Some (c, l) \<Longrightarrow>
     \<exists>ctx. r = Return ctx \<and> c = sumCounters ctx \<and> l = length (results ctx)"
  by (cases r) auto

lemma wellFormed_appendUnseen: "wellFormed ctx \<Longrightarrow> wellFormed (appendUnseen items ctx)"
  by (auto simp: wellFormed_def appendUnseen_eq set_unseenIds distinct_unseenIds)

subsection \<open>No id twice, every result excluded\<close>

text \<open>
  Claim C4. Whatever chain of the six recommenders has run on the context of a request, the
  results hold no id twice and every id of the results is in the exclusion set; as the
  chain is any chain, this holds after each recommender of a run. The list that
  \<^verbatim>\<open>Recommend\<close> returns holds no id twice. The loop that appends the ids of a scored list
  keeps both properties at each of its steps, since \<open>items\<close> is any list here.
\<close>

theorem results_distinct_and_excluded:
  "(fst (bind (createRecommendContext s rt uid cat n)
          (runRecommenders (map (recommenderOf s) sts)) w) = Return ctx \<longrightarrow>
      distinct (results ctx) \<and> set (results ctx) \<subseteq> excludeSet ctx) \<and>
   (fst (Recommend s rt uid cat n (map (recommenderOf s) sts) w) = Return rs \<longrightarrow> distinct rs) \<and>
   (distinct (results c) \<and> set (results c) \<subseteq> excludeSet c \<longrightarrow>
      distinct (results (appendUnseen items c)) \<and>
      set (results (appendUnseen items c)) \<subseteq> excludeSet (appendUnseen items c))"
proof (intro conjI impI)
  assume "fst (bind (createRecommendContext s rt uid cat n)
                (runRecommenders (map (recommenderOf s) sts)) w) = Return ctx"
  then obtain ctx0 w0 w' where
    create: "createRecommendContext s rt uid cat n w = (Return ctx0, w0)" and
    run: "runRecommenders (map (recommenderOf s) sts) ctx0 w0 = (Return ctx, w')"
    by (auto dest: fst_bind_Return)
  from run_wellFormed [OF run create_fresh(4) [OF create]]
  show "distinct (results ctx)" "set (results ctx) \<subseteq> excludeSet ctx"
    by (simp_all add: wellFormed_def)
next
  assume "fst (Recommend s rt uid cat n (map (recommenderOf s) sts) w) = Return rs"
  then obtain w' where "Recommend s rt uid cat n (map (recommenderOf s) sts) w = (Return rs, w')"
    by (auto dest: fst_Return)
  then obtain ctx where
    run: "recommendRun s rt uid cat n (map (recommenderOf s) sts) w = (Return ctx, w')"
    and rs: "rs = results ctx"
    by (rule Recommend_Return)
  from run obtain ctx0 w0 ctx1 where
    create: "createRecommendContext s rt uid cat n w = (Return ctx0, w0)" and
    chain: "runRecommenders (map (recommenderOf s) sts) ctx0 w0 = (Return ctx1, w')" and
    ctx: "ctx = ctx1\<lparr>results := take (nat n) (results ctx1)\<rparr>"
    by (rule recommendRun_Return)
  from run_wellFormed [OF chain create_fresh(4) [OF create]] have "distinct (results ctx1)"
    by (simp add: wellFormed_def)
  with rs ctx show "distinct rs" by simp
next
  assume "distinct (results c) \<and> set (results c) \<subseteq> excludeSet c"
  then have "wellFormed (appendUnseen items c)"
    by (intro wellFormed_appendUnseen) (simp add: wellFormed_def)
  then show "distinct (results (appendUnseen items c))"
    "set (results (appendUnseen items c)) \<subseteq> excludeSet (appendUnseen items c)"
    by (simp_all add: wellFormed_def)
qed

theorem results_distinct_and_excluded_witness:
  "fst (bind (createRecommendContext (memServer [''latest'']) memRuntime ''u1'' [] 3)
         (runRecommenders (map (recommenderOf (memServer [''latest''])) [Offline, Latest]))
         worldRepeated)
     = Return ((contextOf ''u1'' 3)\<lparr>results := [''a'', ''b''], excludeSet := {''b'', ''a''},
                 numPrevStage := 2, numFromLatest := 1, numFromOffline := 1\<rparr>) \<and>
   fst (Recommend (memServer [''latest'']) memRuntime ''u1'' [] 3
         (map (recommenderOf (memServer [''latest''])) [Offline, Latest]) worldRepeated)
     = Return [''a'', ''b''] \<and>
   distinct [''a'', ''b''] \<and> set [''a'', ''b''] \<subseteq> {''b'', ''a''} \<and>
   results (appendUnseen [\<lparr>Id' = ''a'', Score = Finite 3\<rparr>, \<lparr>Id' = ''b'', Score = Finite 2\<rparr>, \<lparr>Id' = ''b'', Score = Finite 1\<rparr>]
              ((contextOf ''u1'' 3)\<lparr>results := [''a''], excludeSet := {''a''}\<rparr>)) = [''a'', ''b''] \<and>
   excludeSet (appendUnseen [\<lparr>Id' = ''a'', Score = Finite 3\<rparr>, \<lparr>Id' = ''b'', Score = Finite 2\<rparr>, \<lparr>Id' = ''b'', Score = Finite 1\<rparr>]
              ((contextOf ''u1'' 3)\<lparr>results := [''a''], excludeSet := {''a''}\<rparr>)) = {''b'', ''a''} \<and>
   fst (Recommend (memServer [''user_based'', ''item_based'']) memRuntime ''u1'' ''books'' 5
         (map (recommenderOf (memServer [''user_based'', ''item_based'']))
            [Offline, UserBased, ItemBased]) worldNeighbors)
     = Return [''x'', ''z'', ''k''] \<and>
   distinct [''x'', ''z'', ''k'']"
proof -
  let ?ctx = "(contextOf ''u1'' 3)\<lparr>results := [''a'', ''b''], excludeSet := {''b'', ''a''},
                 numPrevStage := 2, numFromLatest := 1, numFromOffline := 1\<rparr>"
  let ?c = "(contextOf ''u1'' 3)\<lparr>results := [''a''], excludeSet := {''a''}\<rparr>"
  let ?items = "[\<lparr>Id' = ''a'', Score = Finite 3\<rparr>, \<lparr>Id' = ''b'', Score = Finite 2\<rparr>, \<lparr>Id' = ''b'', Score = Finite 1\<rparr>]"
  have e1: "fst (bind (createRecommendContext (memServer [''latest'']) memRuntime ''u1'' [] 3)
         (runRecommenders (map (recommenderOf (memServer [''latest''])) [Offline, Latest]))
         worldRepeated) = Return ?ctx"
    by (simp add: run_defs mem_defs worldRepeated_def contextOf_def worldNeighbors_def
        feedbackOf_def itemOf_def)
  have e2: "fst (Recommend (memServer [''latest'']) memRuntime ''u1'' [] 3
         (map (recommenderOf (memServer [''latest''])) [Offline, Latest]) worldRepeated)
     = Return [''a'', ''b'']"
    by (simp add: run_defs mem_defs worldRepeated_def contextOf_def worldNeighbors_def
        feedbackOf_def itemOf_def)
  have e3: "distinct (results ?c) \<and> set (results ?c) \<subseteq> excludeSet ?c"
    by (simp add: contextOf_def)
  have e4: "results (appendUnseen ?items ?c) = [''a'', ''b'']"
    "excludeSet (appendUnseen ?items ?c) = {''b'', ''a''}"
    by (simp_all add: contextOf_def)
  have e5: "results ?ctx = [''a'', ''b'']" "excludeSet ?ctx = {''b'', ''a''}"
    by (simp_all add: contextOf_def)
  from results_distinct_and_excluded [where s = "memServer [''latest'']" and rt = memRuntime
      and uid = "''u1''" and cat = "[]" and n = 3 and sts = "[Offline, Latest]"
      and w = worldRepeated and rs = "[''a'', ''b'']" and ctx = ?ctx and c = ?c
      and items = ?items] e1 e2 e3
  have "distinct (results ?ctx) \<and> set (results ?ctx) \<subseteq> excludeSet ?ctx"
    "distinct [''a'', ''b'']"
    "distinct (results (appendUnseen ?items ?c)) \<and>
      set (results (appendUnseen ?items ?c)) \<subseteq> excludeSet (appendUnseen ?items ?c)"
    by blast+
  note first = this
  have e6: "fst (Recommend (memServer [''user_based'', ''item_based'']) memRuntime ''u1'' ''books'' 5
         (map (recommenderOf (memServer [''user_based'', ''item_based'']))
            [Offline, UserBased, ItemBased]) worldNeighbors)
     = Return [''x'', ''z'', ''k'']"
    by (simp add: run_defs mem_defs f32 worldRepeated_def contextOf_def worldNeighbors_def
        feedbackOf_def itemOf_def)
  from results_distinct_and_excluded [where s = "memServer [''user_based'', ''item_based'']"
      and rt = memRuntime and uid = "''u1''" and cat = "''books''" and n = 5
      and sts = "[Offline, UserBased, ItemBased]" and w = worldNeighbors
      and rs = "[''x'', ''z'', ''k'']"] e6
  have "distinct [''x'', ''z'', ''k'']" by blast
  with first e1 e2 e4 e5 e6 show ?thesis by simp
qed

subsection \<open>The sum of the counters\<close>

text \<open>
  Claim C2, as the code has it. For a chain in which no recommender occurs twice, the six
  counters add up to the number of results that the recommenders have accumulated, which
  is the length of the list before the driver truncates it; the list that the driver
  returns has the smaller of \<open>n\<close> and that sum as its length. \<open>stats\<close> gives the sum of
  the counters and the number of results of a returned context: in the first part the
  context is the one after the loop of the driver over its recommenders, in the second
  the one at its return.
\<close>

theorem counters_sum_to_untruncated_length:
  assumes "distinct sts"
  shows "(stats (fst (bind (createRecommendContext s rt uid cat n)
                       (runRecommenders (map (recommenderOf s) sts)) w)) = Some (c, l)
            \<longrightarrow> c = int l) \<and>
         (stats (fst (recommendRun s rt uid cat n (map (recommenderOf s) sts) w)) = Some (c', l')
            \<longrightarrow> int l' = min n c')"
proof (intro conjI impI)
  assume "stats (fst (bind (createRecommendContext s rt uid cat n)
                       (runRecommenders (map (recommenderOf s) sts)) w)) = Some (c, l)"
  then obtain ctx where
    r: "fst (bind (createRecommendContext s rt uid cat n)
           (runRecommenders (map (recommenderOf s) sts)) w) = Return ctx"
    and c: "c = sumCounters ctx" and l: "l = length (results ctx)"
    by (auto dest: stats_Some)
  from r obtain ctx0 w0 w' where
    create: "createRecommendContext s rt uid cat n w = (Return ctx0, w0)" and
    chain: "runRecommenders (map (recommenderOf s) sts) ctx0 w0 = (Return ctx, w')"
    by (auto dest: fst_bind_Return)
  from run_counted [OF chain assms _ create_fresh(3) [OF create]]
  have "counted (set sts) ctx" by simp
  with c l show "c = int l" by (simp add: counted_def)
next
  assume "stats (fst (recommendRun s rt uid cat n (map (recommenderOf s) sts) w)) = Some (c', l')"
  then obtain ctx where
    r: "fst (recommendRun s rt uid cat n (map (recommenderOf s) sts) w) = Return ctx"
    and c: "c' = sumCounters ctx" and l: "l' = length (results ctx)"
    by (auto dest: stats_Some)
  from r obtain w' where
    "recommendRun s rt uid cat n (map (recommenderOf s) sts) w = (Return ctx, w')"
    by (auto dest: fst_Return)
  then obtain ctx0 w0 ctx1 where
    create: "createRecommendContext s rt uid cat n w = (Return ctx0, w0)" and
    chain: "runRecommenders (map (recommenderOf s) sts) ctx0 w0 = (Return ctx1, w')" and
    n: "0 \<le> n" and ctx: "ctx = ctx1\<lparr>results := take (nat n) (results ctx1)\<rparr>"
    by (rule recommendRun_Return)
  from run_counted [OF chain assms _ create_fresh(3) [OF create]]
  have "counted (set sts) ctx1" by simp
  then have "sumCounters ctx1 = int (length (results ctx1))"
    by (simp add: counted_def)
  with c l ctx n show "int l' = min n c'"
    by (simp add: sumCounters_def min_def) arith
qed

text \<open>
  The claim as stated fails in two ways. With four offline entries and \<open>n = 3\<close> the counters
  add up to 4 and the returned list has 3 ids. With the latest recommender twice in the
  chain its second run overwrites the counter: the counters add up to 0 for 2 results.
\<close>

theorem counters_sum_counterexample:
  "stats (fst (recommendRun (memServer [''latest'']) memRuntime ''u1'' [] 3
         (map (recommenderOf (memServer [''latest''])) [Offline, Latest]) worldOffline4))
     = Some (4, 3) \<and>
   stats (fst (recommendRun (memServer [''latest'', ''latest'']) memRuntime ''u1'' [] 5
         (map (recommenderOf (memServer [''latest'', ''latest''])) [Offline, Latest, Latest])
         worldLatest2))
     = Some (0, 2)"
  by (simp add: run_defs mem_defs sumCounters_def worldOffline4_def worldLatest2_def)

theorem counters_sum_to_untruncated_length_witness:
  "distinct [Offline, Latest] \<and>
   stats (fst (bind (createRecommendContext (memServer [''latest'']) memRuntime ''u1'' [] 3)
         (runRecommenders (map (recommenderOf (memServer [''latest''])) [Offline, Latest]))
         worldOffline4))
     = Some (4, 4) \<and>
   stats (fst (recommendRun (memServer [''latest'']) memRuntime ''u1'' [] 3
         (map (recommenderOf (memServer [''latest''])) [Offline, Latest]) worldOffline4))
     = Some (4, 3) \<and>
   (4::int) = int 4 \<and> int 3 = min 3 4"
proof -
  have d: "distinct [Offline, Latest]" by simp
  have e1: "stats (fst (bind (createRecommendContext (memServer [''latest'']) memRuntime ''u1'' [] 3)
         (runRecommenders (map (recommenderOf (memServer [''latest''])) [Offline, Latest]))
         worldOffline4))
     = Some (4, 4)"
    by (simp add: run_defs mem_defs sumCounters_def worldOffline4_def)
  have e2: "stats (fst (recommendRun (memServer [''latest'']) memRuntime ''u1'' [] 3
         (map (recommenderOf (memServer [''latest''])) [Offline, Latest]) worldOffline4))
     = Some (4, 3)"
    by (simp add: run_defs mem_defs sumCounters_def worldOffline4_def)
  from counters_sum_to_untruncated_length [OF d, where s = "memServer [''latest'']"
      and rt = memRuntime and uid = "''u1''" and cat = "[]" and n = 3 and c = 4 and l = 4
      and c' = 4 and l' = 3 and w = worldOffline4] e1 e2 d
  show ?thesis by blast
qed

subsection \<open>The truncation and negative targets\<close>

lemma Recommend_negative:
  assumes "n < 0"
  shows "fst (Recommend s rt uid cat n (map (recommenderOf s) sts) w) =
     (case getScores (CacheClient s) IgnoreItems uid 0 (- 1) (cacheState w) of
        Inl e \<Rightarrow> Fail e | Inr ignoreItems \<Rightarrow> Panic)"
proof (cases "getScores (CacheClient s) IgnoreItems uid 0 (- 1) (cacheState w)")
  case (Inl e)
  then show ?thesis
    by (simp add: Recommend_def recommendRun_def createRecommendContext_def bind_def
        GetScores_def answer_def)
next
  case (Inr ignoreItems)
  then obtain ctx0 w0 where
    create: "createRecommendContext s rt uid cat n w = (Return ctx0, w0)"
    by (simp add: createRecommendContext_def bind_def GetScores_def answer_def ret_def
        ignoreLoop_run)
  from create_fresh(1,2) [OF create] assms have "n' ctx0 \<le> int (length (results ctx0))"
    by simp
  then have "runRecommenders (map (recommenderOf s) sts) ctx0 = ret ctx0"
    by (rule run_saturated)
  with create create_fresh(1) [OF create] assms Inr show ?thesis
    by (simp add: Recommend_def recommendRun_def truncateResults_def bind_def ret_def)
qed

text \<open>
  Claim C10. For \<open>n \<ge> 0\<close> the truncation of the driver is in bounds: it returns the context
  with the first \<open>n\<close> results. For \<open>n < 0\<close> the test \<open>len(results) > n\<close> holds and the slice
  expression panics; the driver then never returns a list: over any chain of the six
  recommenders it panics, unless the read of the ignored items already failed.
\<close>

theorem truncation_in_bounds_iff_nonnegative:
  "(0 \<le> n \<longrightarrow>
      truncateResults n ctx w = (Return (ctx\<lparr>results := take (nat n) (results ctx)\<rparr>), w)) \<and>
   (n < 0 \<longrightarrow> int (length (results ctx)) > n \<and> truncateResults n ctx w = (Panic, w)) \<and>
   (n < 0 \<longrightarrow>
      fst (Recommend s rt uid cat n (map (recommenderOf s) sts) w) =
        (case getScores (CacheClient s) IgnoreItems uid 0 (- 1) (cacheState w) of
           Inl e \<Rightarrow> Fail e | Inr ignoreItems \<Rightarrow> Panic))"
  by (auto simp: truncateResults_def Recommend_negative)

text \<open>
  The witness: a truncation to one result, the driver with the target \<open>-1\<close>, and the
  handler on a request with \<^verbatim>\<open>n=-1\<close>, which \<^verbatim>\<open>ParseInt\<close> accepts.
\<close>

theorem truncation_in_bounds_iff_nonnegative_witness:
  "(0::int) \<le> 1 \<and>
   truncateResults 1 \<lparr>userId = ''u1'', category = [], userFeedback = None, n' = 1,
       results = [''a'', ''b''], excludeSet = {''a'', ''b''}, numPrevStage = 2, numFromLatest = 0,
       numFromPopular = 0, numFromUserBased = 0, numFromItemBased = 0,
       numFromCollaborative = 0, numFromOffline = 2\<rparr> (memWorld [] [] [] False)
     = (Return \<lparr>userId = ''u1'', category = [], userFeedback = None, n' = 1,
       results = [''a''], excludeSet = {''a'', ''b''}, numPrevStage = 2, numFromLatest = 0,
       numFromPopular = 0, numFromUserBased = 0, numFromItemBased = 0,
       numFromCollaborative = 0, numFromOffline = 2\<rparr>, memWorld [] [] [] False) \<and>
   (- 1 :: int) < 0 \<and>
   fst (Recommend (memServer []) memRuntime ''u1'' [] (- 1)
          (map (recommenderOf (memServer [])) [Offline]) (memWorld [] [] [] False)) = Panic \<and>
   ParseInt (recommendRequest ''u1'' [(''n'', ''-1'')]) ''n'' 10 = Inr (- 1) \<and>
   fst (getRecommend (memServer []) memRuntime (recommendRequest ''u1'' [(''n'', ''-1'')])
          (memWorld [] [] [] False)) = Panic"
proof -
  have a: "fst (getRecommend (memServer []) memRuntime (recommendRequest ''u1'' [(''n'', ''-1'')])
          (memWorld [] [] [] False)) = Panic"
    by (simp add: http_defs run_defs mem_defs recommendRequest_def)
  have b: "ParseInt (recommendRequest ''u1'' [(''n'', ''-1'')]) ''n'' 10 = Inr (- 1)"
    by (simp add: http_defs mem_defs recommendRequest_def)
  show ?thesis
    using truncation_in_bounds_iff_nonnegative [where n = 1 and w = "memWorld [] [] [] False"]
      truncation_in_bounds_iff_nonnegative [where n = "- 1" and s = "memServer []"
        and rt = memRuntime and uid = "''u1''" and cat = "[]" and sts = "[Offline]"
        and w = "memWorld [] [] [] False"] a b
    by (simp add: mem_defs recommendRequest_def)
qed

subsection \<open>Reads and writes\<close>

lemma readOnly_refl [simp]: "readOnly w w"
  by (simp add: readOnly_def)

lemma readOnly_trans: "readOnly w w1 \<Longrightarrow> readOnly w1 w2 \<Longrightarrow> readOnly w w2"
  unfolding readOnly_def prefix_def by (auto simp: list_all_iff)

lemma readOnly_logged: "isRead c \<Longrightarrow> readOnly w (logged c w)"
  by (simp add: readOnly_def logged_def)

lemma readOnly_logError: "readOnly w (logError e w)"
  by (simp add: readOnly_def logError_def)

lemma readsOnlyI: "(\<And>w. readOnly w (snd (m w))) \<Longrightarrow> readsOnly m"
  by (simp add: readsOnly_def)

lemma readsOnlyD: "readsOnly m \<Longrightarrow> readOnly w (snd (m w))"
  by (simp add: readsOnly_def)

lemma readsOnly_ret [simp]: "readsOnly (ret a)"
  by (simp add: readsOnly_def ret_def)

lemma readsOnly_bind:
  assumes "readsOnly m" "\<And>a. readsOnly (f a)"
  shows "readsOnly (bind m f)"
proof (rule readsOnlyI)
  fix w
  obtain r w1 where m: "m w = (r, w1)" by (cases "m w")
  have "readOnly w (snd (m w))" by (rule readsOnlyD) fact
  with m have 1: "readOnly w w1" by simp
  show "readOnly w (snd (bind m f w))"
  proof (cases r)
    case (Return a)
    with m have "bind m f w = f a w1" by (simp add: bind_def)
    moreover have "readOnly w1 (snd (f a w1))" by (rule readsOnlyD) (rule assms(2))
    ultimately show ?thesis using 1
      by (auto intro: readOnly_trans)
  next
    case (Fail e)
    with m 1 show ?thesis by (simp add: bind_def)
  next
    case Panic
    with m 1 show ?thesis by (simp add: bind_def)
  qed
qed

lemma readsOnly_GetScores [simp]: "readsOnly (GetScores s p name lo hi)"
  by (simp add: readsOnly_def GetScores_def readOnly_logged)

lemma readsOnly_GetCategoryScores [simp]: "readsOnly (GetCategoryScores s p name cat lo hi)"
  by (simp add: readsOnly_def GetCategoryScores_def readOnly_logged)

lemma readsOnly_Exists [simp]: "readsOnly (Exists s p names)"
  by (simp add: readsOnly_def Exists_def readOnly_logged)

lemma readsOnly_GetUserFeedback [simp]: "readsOnly (GetUserFeedback s uid withFuture types)"
  by (simp add: readsOnly_def GetUserFeedback_def readOnly_logged)

lemma readsOnly_GetItem [simp]: "readsOnly (GetItem s iid)"
  by (simp add: readsOnly_def GetItem_def readOnly_logged)

lemma readsOnly_filterOutHiddenScores [simp]: "readsOnly (filterOutHiddenScores s items)"
proof (rule readsOnlyI)
  fix w
  obtain r w1 where e: "Exists s HiddenItems (RemoveScores items) w = (r, w1)"
    by (cases "Exists s HiddenItems (RemoveScores items) w")
  have "readOnly w (snd (Exists s HiddenItems (RemoveScores items) w))"
    by (rule readsOnlyD) simp
  with e have "readOnly w w1" by simp
  with e show "readOnly w (snd (filterOutHiddenScores s items w))"
    by (cases r) (auto simp: filterOutHiddenScores_def intro: readOnly_trans readOnly_logError)
qed

lemma readsOnly_filterOutHiddenFeedback [simp]: "readsOnly (filterOutHiddenFeedback s feedbacks)"
proof (rule readsOnlyI)
  fix w
  obtain r w1 where e: "Exists s HiddenItems (map ItemId feedbacks) w = (r, w1)"
    by (cases "Exists s HiddenItems (map ItemId feedbacks) w")
  have "readOnly w (snd (Exists s HiddenItems (map ItemId feedbacks) w))"
    by (rule readsOnlyD) simp
  with e have "readOnly w w1" by simp
  with e show "readOnly w (snd (filterOutHiddenFeedback s feedbacks w))"
    by (cases r) (auto simp: filterOutHiddenFeedback_def intro: readOnly_trans readOnly_logError)
qed

lemma readsOnly_requireUserFeedback [simp]: "readsOnly (requireUserFeedback s ctx)"
  by (auto simp: requireUserFeedback_def split: option.splits intro!: readsOnly_bind)

lemma readsOnly_unseenFeedbackLoop [simp]:
  "readsOnly (unseenFeedbackLoop s ctx user feedbacks candidates)"
proof (induction feedbacks arbitrary: candidates)
  case Nil
  have "unseenFeedbackLoop s ctx user [] candidates = ret candidates"
    by (rule ext) simp
  then show ?case by simp
next
  case (Cons feedback feedbacks)
  have "unseenFeedbackLoop s ctx user (feedback # feedbacks) candidates =
     (if ItemId feedback \<notin> excludeSet ctx then
        bind (GetItem s (ItemId feedback)) (\<lambda>item.
          unseenFeedbackLoop s ctx user feedbacks
            (if category ctx = [] \<or> category ctx \<in> set (Categories item)
             then addScore (ItemId feedback) (Score user) candidates else candidates))
      else unseenFeedbackLoop s ctx user feedbacks candidates)"
    by (rule ext) simp
  then show ?case using Cons.IH
    by (auto intro!: readsOnly_bind)
qed

lemma readsOnly_similarUsersLoop [simp]:
  "readsOnly (similarUsersLoop s ctx users candidates)"
proof (induction users arbitrary: candidates)
  case Nil
  have "similarUsersLoop s ctx [] candidates = ret candidates"
    by (rule ext) simp
  then show ?case by simp
next
  case (Cons user users)
  have "similarUsersLoop s ctx (user # users) candidates =
     bind (GetUserFeedback s (Id' user) False (PositiveFeedbackType (GorseConfig s))) (\<lambda>feedbacks.
     bind (filterOutHiddenFeedback s (elems feedbacks)) (\<lambda>feedbacks.
     bind (unseenFeedbackLoop s ctx user feedbacks candidates) (\<lambda>candidates.
       similarUsersLoop s ctx users candidates)))"
    by (rule ext) simp
  then show ?case using Cons.IH
    by (auto intro!: readsOnly_bind)
qed

lemma readsOnly_similarItemsLoop [simp]:
  "readsOnly (similarItemsLoop s ctx feedbacks candidates)"
proof (induction feedbacks arbitrary: candidates)
  case Nil
  have "similarItemsLoop s ctx [] candidates = ret candidates"
    by (rule ext) simp
  then show ?case by simp
next
  case (Cons feedback feedbacks)
  have "similarItemsLoop s ctx (feedback # feedbacks) candidates =
     bind (GetCategoryScores s ItemNeighbors (ItemId feedback) (category ctx) 0
             (CacheSize (GorseConfig s))) (\<lambda>similarItems.
     bind (filterOutHiddenScores s similarItems) (\<lambda>similarItems.
       similarItemsLoop s ctx feedbacks (unseenItemsLoop ctx similarItems candidates)))"
    by (rule ext) simp
  then show ?case using Cons.IH
    by (auto intro!: readsOnly_bind)
qed

lemma readsOnly_stage: "readsOnly (recommenderOf s st ctx)"
  by (cases st)
    (auto simp: RecommendOffline_def RecommendCollaborative_def RecommendItemBased_def
      RecommendUserBased_def RecommendLatest_def RecommendPopular_def Let_def
      intro!: readsOnly_bind)

lemma readsOnly_run: "readsOnly (runRecommenders (map (recommenderOf s) sts) ctx)"
  by (induction sts arbitrary: ctx) (auto intro!: readsOnly_bind readsOnly_stage)

lemma readsOnly_truncateResults [simp]: "readsOnly (truncateResults n ctx)"
  by (simp add: readsOnly_def truncateResults_def)

lemma readsOnly_ignoreLoop [simp]: "readsOnly (ignoreLoop rt items ex)"
  by (simp add: readsOnly_def readOnly_def ignoreLoop_run)

lemma readsOnly_Recommend: "readsOnly (Recommend s rt uid cat n (map (recommenderOf s) sts))"
  by (auto simp: Recommend_def recommendRun_def createRecommendContext_def
      intro!: readsOnly_bind readsOnly_run)

lemma fallbackLoop_stages:
  "fallbackLoop s names (map (recommenderOf s) sts0) = Inr recommenders \<Longrightarrow>
     \<exists>sts. recommenders = map (recommenderOf s) sts"
proof (induction names arbitrary: sts0)
  case Nil
  then show ?case by auto
next
  case (Cons name names)
  have app: "\<And>st. map (recommenderOf s) sts0 @ [recommenderOf s st] = map (recommenderOf s) (sts0 @ [st])"
    by simp
  from Cons.prems show ?case
    using Cons.IH [of "sts0 @ [Collaborative]"] Cons.IH [of "sts0 @ [ItemBased]"]
      Cons.IH [of "sts0 @ [UserBased]"] Cons.IH [of "sts0 @ [Latest]"]
      Cons.IH [of "sts0 @ [Popular]"]
    by (simp split: if_splits)
qed

lemma fallback_from_offline:
  "fallbackLoop s names [RecommendOffline s] = Inr recommenders \<Longrightarrow>
     \<exists>sts. recommenders = map (recommenderOf s) sts"
  using fallbackLoop_stages [of s names "[Offline]"] by simp

lemma readsOnly_sendResults: "readsOnly (sendResults s rt uid offset [] writeBackDelay rs)"
  by (simp add: readsOnly_def sendResults_def)

lemma readOnly_getRecommend:
  assumes "QueryParameter request ''write-back-type'' = []"
  shows "readOnly w (snd (getRecommend s rt request w))"
proof -
  have *: "readOnly w (snd (case Recommend s rt uid cat n (map (recommenderOf s) sts) w of
        (Fail err, w') \<Rightarrow> (Return (InternalServerError err), logError err w')
      | (Panic, w') \<Rightarrow> (Panic, w')
      | (Return rs, w') \<Rightarrow> sendResults s rt uid offset [] d rs w'))" for uid cat n sts offset d
  proof -
    obtain r w1 where r: "Recommend s rt uid cat n (map (recommenderOf s) sts) w = (r, w1)"
      by (cases "Recommend s rt uid cat n (map (recommenderOf s) sts) w")
    have "readOnly w (snd (Recommend s rt uid cat n (map (recommenderOf s) sts) w))"
      by (rule readsOnlyD) (rule readsOnly_Recommend)
    with r have 1: "readOnly w w1" by simp
    show ?thesis
    proof (cases r)
      case (Return rs)
      have "readOnly w1 (snd (sendResults s rt uid offset [] d rs w1))"
        by (rule readsOnlyD) (rule readsOnly_sendResults)
      with r Return 1 show ?thesis by (auto intro: readOnly_trans)
    next
      case (Fail e)
      with r 1 show ?thesis by (auto intro: readOnly_trans readOnly_logError)
    next
      case Panic
      with r 1 show ?thesis by simp
    qed
  qed
  show ?thesis
    unfolding getRecommend_def Let_def assms
    by (auto split: sum.splits simp: readOnly_logError * dest!: fallback_from_offline)
qed

text \<open>
  Claim C9. The driver \<^verbatim>\<open>Recommend\<close>, over any chain of the six recommenders, and each
  recommender on its own only read the stores: from the world before to the world after,
  the state of the cache store and the state of the data store are the same, and every
  call added to the trace is one of \<^verbatim>\<open>GetScores\<close>, \<^verbatim>\<open>GetCategoryScores\<close>, \<^verbatim>\<open>Exists\<close>,
  \<^verbatim>\<open>GetUserFeedback\<close> and \<^verbatim>\<open>GetItem\<close>, whatever the outcome is. The same holds for the whole
  handler when the request carries no write-back type: the writes are those of the
  write-back loop.
\<close>

theorem recommend_reads_only:
  "readOnly w (snd (Recommend s rt uid cat n (map (recommenderOf s) sts) w)) \<and>
   readOnly w (snd (recommenderOf s st ctx w)) \<and>
   (QueryParameter request ''write-back-type'' = [] \<longrightarrow>
      readOnly w (snd (getRecommend s rt request w)))"
proof (intro conjI impI)
  show "readOnly w (snd (Recommend s rt uid cat n (map (recommenderOf s) sts) w))"
    by (rule readsOnlyD) (rule readsOnly_Recommend)
  show "readOnly w (snd (recommenderOf s st ctx w))"
    by (rule readsOnlyD) (rule readsOnly_stage)
qed (rule readOnly_getRecommend)

theorem recommend_reads_only_witness:
  "readOnly worldOffline4
     (snd (Recommend (memServer [''latest'']) memRuntime ''u1'' [] 3
            (map (recommenderOf (memServer [''latest''])) [Offline, Latest]) worldOffline4)) \<and>
   trace (snd (Recommend (memServer [''latest'']) memRuntime ''u1'' [] 3
            (map (recommenderOf (memServer [''latest''])) [Offline, Latest]) worldOffline4)) =
     [CallGetScores IgnoreItems ''u1'' 0 (- 1),
      CallGetCategoryScores OfflineRecommend ''u1'' [] 0 100,
      CallExists HiddenItems [''a'', ''b'', ''c'', ''d'']] \<and>
   QueryParameter (recommendRequest ''u1'' [(''n'', ''2'')]) ''write-back-type'' = [] \<and>
   readOnly worldPopular2
     (snd (getRecommend (memServer [''popular'']) memRuntime (recommendRequest ''u1'' [(''n'', ''2'')])
        worldPopular2)) \<and>
   fst (getRecommend (memServer [''popular'']) memRuntime (recommendRequest ''u1'' [(''n'', ''2'')])
        worldPopular2) = Return (Ok [''a'', ''b''])"
proof -
  have q: "QueryParameter (recommendRequest ''u1'' [(''n'', ''2'')]) ''write-back-type'' = []"
    by (simp add: mem_defs worldOffline4_def recommendRequest_def worldPopular2_def)
  have t: "trace (snd (Recommend (memServer [''latest'']) memRuntime ''u1'' [] 3
            (map (recommenderOf (memServer [''latest''])) [Offline, Latest]) worldOffline4)) =
     [CallGetScores IgnoreItems ''u1'' 0 (- 1),
      CallGetCategoryScores OfflineRecommend ''u1'' [] 0 100,
      CallExists HiddenItems [''a'', ''b'', ''c'', ''d'']]"
    by (simp add: run_defs mem_defs worldOffline4_def recommendRequest_def worldPopular2_def)
  have r: "fst (getRecommend (memServer [''popular'']) memRuntime (recommendRequest ''u1'' [(''n'', ''2'')])
        worldPopular2) = Return (Ok [''a'', ''b''])"
    by (simp add: http_defs run_defs mem_defs worldOffline4_def recommendRequest_def
        worldPopular2_def)
  from recommend_reads_only [where w = worldOffline4 and s = "memServer [''latest'']"
      and rt = memRuntime and uid = "''u1''" and cat = "[]" and n = 3 and sts = "[Offline, Latest]"]
    recommend_reads_only [where w = worldPopular2 and s = "memServer [''popular'']"
      and rt = memRuntime and request = "recommendRequest ''u1'' [(''n'', ''2'')]"] q t r
  show ?thesis by blast
qed

subsection \<open>Filtering hidden items\<close>

lemma hiddenLoop_zip:
  "i + length flags \<le> length items \<Longrightarrow>
     hiddenLoop flags items i acc =
       Return (acc @ map fst (filter (\<lambda>(x, h). h = 0) (zip (drop i items) flags)))"
proof (induction flags arbitrary: i acc)
  case Nil
  then show ?case by simp
next
  case (Cons h flags)
  then have i: "i < length items" by simp
  then have d: "drop i items = items ! i # drop (Suc i) items"
    by (simp add: Cons_nth_drop_Suc)
  from Cons.prems have "Suc i + length flags \<le> length items" by simp
  from Cons.IH [OF this] i show ?case
    by (simp add: d)
qed

lemma visible_flags:
  "set flags \<subseteq> {0, 1} \<Longrightarrow>
     filter (\<lambda>(x, h). h = 0) (zip items flags) = filter (\<lambda>(x, h). h \<noteq> (1::int)) (zip items flags)"
  by (rule filter_cong) (auto dest!: set_zip_rightD)

text \<open>
  Claim C5. When \<^verbatim>\<open>Exists\<close> on the hidden items fails, either filter returns its input as
  it is, and the error is written to the log (the world after is the world with the call
  in its trace and the error in its log). When \<^verbatim>\<open>Exists\<close> answers with one flag, 0 or 1,
  for each element, either filter returns the elements whose flag is not 1, in their
  order.
\<close>

theorem hidden_filter_fail_open:
  "(exists (CacheClient s) HiddenItems (RemoveScores items) (cacheState w) = Inl e \<longrightarrow>
      filterOutHiddenScores s items w =
        (Return items, logError e (logged (CallExists HiddenItems (RemoveScores items)) w))) \<and>
   (exists (CacheClient s) HiddenItems (map ItemId feedbacks) (cacheState w) = Inl e \<longrightarrow>
      filterOutHiddenFeedback s feedbacks w =
        (Return feedbacks, logError e (logged (CallExists HiddenItems (map ItemId feedbacks)) w))) \<and>
   (exists (CacheClient s) HiddenItems (RemoveScores items) (cacheState w) = Inr flags \<and>
    length flags = length items \<and> set flags \<subseteq> {0, 1} \<longrightarrow>
      fst (filterOutHiddenScores s items w) =
        Return (map fst (filter (\<lambda>(x, h). h \<noteq> 1) (zip items flags)))) \<and>
   (exists (CacheClient s) HiddenItems (map ItemId feedbacks) (cacheState w) = Inr flags \<and>
    length flags = length feedbacks \<and> set flags \<subseteq> {0, 1} \<longrightarrow>
      fst (filterOutHiddenFeedback s feedbacks w) =
        Return (map fst (filter (\<lambda>(x, h). h \<noteq> 1) (zip feedbacks flags))))"
  by (auto simp: filterOutHiddenScores_def filterOutHiddenFeedback_def Exists_def answer_def
      hiddenLoop_zip visible_flags)

theorem hidden_filter_fail_open_witness:
  "exists (CacheClient (memServer [])) HiddenItems
      (RemoveScores [\<lparr>Id' = ''a'', Score = Finite 9\<rparr>, \<lparr>Id' = ''b'', Score = Finite 8\<rparr>, \<lparr>Id' = ''c'', Score = Finite 7\<rparr>])
      (cacheState worldHiddenFailing) = Inl (StoreError ''cache'') \<and>
   filterOutHiddenScores (memServer [])
      [\<lparr>Id' = ''a'', Score = Finite 9\<rparr>, \<lparr>Id' = ''b'', Score = Finite 8\<rparr>, \<lparr>Id' = ''c'', Score = Finite 7\<rparr>]
      worldHiddenFailing =
     (Return [\<lparr>Id' = ''a'', Score = Finite 9\<rparr>, \<lparr>Id' = ''b'', Score = Finite 8\<rparr>, \<lparr>Id' = ''c'', Score = Finite 7\<rparr>],
      worldHiddenFailing\<lparr>trace := [CallExists HiddenItems [''a'', ''b'', ''c'']],
                          errorLog := [StoreError ''cache'']\<rparr>) \<and>
   fst (filterOutHiddenFeedback (memServer []) [feedbackOf ''v'' ''a'', feedbackOf ''v'' ''b'']
      worldHiddenFailing) = Return [feedbackOf ''v'' ''a'', feedbackOf ''v'' ''b''] \<and>
   exists (CacheClient (memServer [])) HiddenItems
      (RemoveScores [\<lparr>Id' = ''a'', Score = Finite 9\<rparr>, \<lparr>Id' = ''b'', Score = Finite 8\<rparr>, \<lparr>Id' = ''c'', Score = Finite 7\<rparr>])
      (cacheState worldHidden) = Inr [0, 1, 0] \<and>
   fst (filterOutHiddenScores (memServer [])
      [\<lparr>Id' = ''a'', Score = Finite 9\<rparr>, \<lparr>Id' = ''b'', Score = Finite 8\<rparr>, \<lparr>Id' = ''c'', Score = Finite 7\<rparr>]
      worldHidden) = Return [\<lparr>Id' = ''a'', Score = Finite 9\<rparr>, \<lparr>Id' = ''c'', Score = Finite 7\<rparr>] \<and>
   fst (filterOutHiddenFeedback (memServer []) [feedbackOf ''v'' ''a'', feedbackOf ''v'' ''b'']
      worldHidden) = Return [feedbackOf ''v'' ''a'']"
proof -
  have e1: "exists (CacheClient (memServer [])) HiddenItems
      (RemoveScores [\<lparr>Id' = ''a'', Score = Finite 9\<rparr>, \<lparr>Id' = ''b'', Score = Finite 8\<rparr>, \<lparr>Id' = ''c'', Score = Finite 7\<rparr>])
      (cacheState worldHiddenFailing) = Inl (StoreError ''cache'')"
    by (simp add: run_defs mem_defs worldHidden_def worldHiddenFailing_def feedbackOf_def)
  have e2: "exists (CacheClient (memServer [])) HiddenItems
      (map ItemId [feedbackOf ''v'' ''a'', feedbackOf ''v'' ''b''])
      (cacheState worldHiddenFailing) = Inl (StoreError ''cache'')"
    by (simp add: run_defs mem_defs worldHidden_def worldHiddenFailing_def feedbackOf_def)
  have e3: "exists (CacheClient (memServer [])) HiddenItems
      (RemoveScores [\<lparr>Id' = ''a'', Score = Finite 9\<rparr>, \<lparr>Id' = ''b'', Score = Finite 8\<rparr>, \<lparr>Id' = ''c'', Score = Finite 7\<rparr>])
      (cacheState worldHidden) = Inr [0, 1, 0] \<and> length [0::int, 1, 0] =
      length [\<lparr>Id' = ''a'', Score = Finite 9\<rparr>, \<lparr>Id' = ''b'', Score = Finite 8\<rparr>, \<lparr>Id' = ''c'', Score = Finite 7\<rparr>] \<and>
      set [0::int, 1, 0] \<subseteq> {0, 1}"
    by (simp add: run_defs mem_defs worldHidden_def worldHiddenFailing_def feedbackOf_def)
  have e4: "exists (CacheClient (memServer [])) HiddenItems
      (map ItemId [feedbackOf ''v'' ''a'', feedbackOf ''v'' ''b''])
      (cacheState worldHidden) = Inr [0, 1] \<and>
      length [0::int, 1] = length [feedbackOf ''v'' ''a'', feedbackOf ''v'' ''b''] \<and>
      set [0::int, 1] \<subseteq> {0, 1}"
    by (simp add: run_defs mem_defs worldHidden_def worldHiddenFailing_def feedbackOf_def)
  from hidden_filter_fail_open [where s = "memServer []" and w = worldHiddenFailing
      and e = "StoreError ''cache''"
      and items = "[\<lparr>Id' = ''a'', Score = Finite 9\<rparr>, \<lparr>Id' = ''b'', Score = Finite 8\<rparr>, \<lparr>Id' = ''c'', Score = Finite 7\<rparr>]"
      and feedbacks = "[feedbackOf ''v'' ''a'', feedbackOf ''v'' ''b'']"] e1 e2
  have f: "filterOutHiddenScores (memServer [])
      [\<lparr>Id' = ''a'', Score = Finite 9\<rparr>, \<lparr>Id' = ''b'', Score = Finite 8\<rparr>, \<lparr>Id' = ''c'', Score = Finite 7\<rparr>]
      worldHiddenFailing =
     (Return [\<lparr>Id' = ''a'', Score = Finite 9\<rparr>, \<lparr>Id' = ''b'', Score = Finite 8\<rparr>, \<lparr>Id' = ''c'', Score = Finite 7\<rparr>],
      logError (StoreError ''cache'') (logged (CallExists HiddenItems
        (RemoveScores [\<lparr>Id' = ''a'', Score = Finite 9\<rparr>, \<lparr>Id' = ''b'', Score = Finite 8\<rparr>, \<lparr>Id' = ''c'', Score = Finite 7\<rparr>]))
        worldHiddenFailing))"
    and g: "fst (filterOutHiddenFeedback (memServer []) [feedbackOf ''v'' ''a'', feedbackOf ''v'' ''b'']
      worldHiddenFailing) = Return [feedbackOf ''v'' ''a'', feedbackOf ''v'' ''b'']"
    by simp_all
  from hidden_filter_fail_open [where s = "memServer []" and w = worldHidden
      and items = "[\<lparr>Id' = ''a'', Score = Finite 9\<rparr>, \<lparr>Id' = ''b'', Score = Finite 8\<rparr>, \<lparr>Id' = ''c'', Score = Finite 7\<rparr>]"
      and flags = "[0, 1, 0]"] e3
  have h: "fst (filterOutHiddenScores (memServer [])
      [\<lparr>Id' = ''a'', Score = Finite 9\<rparr>, \<lparr>Id' = ''b'', Score = Finite 8\<rparr>, \<lparr>Id' = ''c'', Score = Finite 7\<rparr>]
      worldHidden) = Return [\<lparr>Id' = ''a'', Score = Finite 9\<rparr>, \<lparr>Id' = ''c'', Score = Finite 7\<rparr>]"
    by simp
  from hidden_filter_fail_open [where s = "memServer []" and w = worldHidden
      and feedbacks = "[feedbackOf ''v'' ''a'', feedbackOf ''v'' ''b'']"
      and flags = "[0, 1]"] e4
  have i: "fst (filterOutHiddenFeedback (memServer []) [feedbackOf ''v'' ''a'', feedbackOf ''v'' ''b'']
      worldHidden) = Return [feedbackOf ''v'' ''a'']"
    by simp
  from f have f': "filterOutHiddenScores (memServer [])
      [\<lparr>Id' = ''a'', Score = Finite 9\<rparr>, \<lparr>Id' = ''b'', Score = Finite 8\<rparr>, \<lparr>Id' = ''c'', Score = Finite 7\<rparr>]
      worldHiddenFailing =
     (Return [\<lparr>Id' = ''a'', Score = Finite 9\<rparr>, \<lparr>Id' = ''b'', Score = Finite 8\<rparr>, \<lparr>Id' = ''c'', Score = Finite 7\<rparr>],
      worldHiddenFailing\<lparr>trace := [CallExists HiddenItems [''a'', ''b'', ''c'']],
                          errorLog := [StoreError ''cache'']\<rparr>)"
    by (simp add: logError_def logged_def RemoveScores_def mem_defs worldHidden_def
        worldHiddenFailing_def feedbackOf_def)
  from e1 e3 f' g h i show ?thesis by simp
qed

subsection \<open>The latest recommender\<close>

text \<open>
  Claim C7, at an input where the code departs from it. The context has \<open>n = 1\<close> and no
  results, and the latest items are \<open>a\<close> and \<open>b\<close>, neither hidden nor excluded. The
  recommender asks for the inclusive range from 0 to \<open>n - len(results) = 1\<close>, so it reads
  two entries, not the first \<open>n - len(results) = 1\<close>, and appends both.
\<close>

theorem latest_reads_one_entry_more:
  "fst (RecommendLatest (memServer [''latest'']) (contextOf ''u1'' 1) worldLatest2) =
     Return ((contextOf ''u1'' 1)\<lparr>results := [''a'', ''b''], excludeSet := {''b'', ''a''},
               numPrevStage := 2, numFromLatest := 2\<rparr>) \<and>
   trace (snd (RecommendLatest (memServer [''latest'']) (contextOf ''u1'' 1) worldLatest2)) =
     [CallGetUserFeedback ''u1'' False [], CallGetScores LatestItems [] 0 1,
      CallExists HiddenItems [''a'', ''b'']] \<and>
   n' (contextOf ''u1'' 1) - int (length (results (contextOf ''u1'' 1))) = 1"
  by (simp add: run_defs mem_defs worldLatest2_def contextOf_def)

subsection \<open>Paging\<close>

text \<open>
  Claim C1, at an input where the code departs from it. With \<^verbatim>\<open>offset=5\<close> and \<^verbatim>\<open>n=1\<close> the
  driver runs with the target 6 and returns the four ids the stores hold; the offset
  exceeds that length, and \<^verbatim>\<open>results[offset:]\<close> panics instead of giving an empty array.
\<close>

theorem offset_beyond_results_panics:
  "fst (Recommend (memServer []) memRuntime ''u1'' [] 6 [RecommendOffline (memServer [])]
         worldOffline4) = Return [''a'', ''b'', ''c'', ''d''] \<and>
   fst (getRecommend (memServer []) memRuntime
         (recommendRequest ''u1'' [(''n'', ''1''), (''offset'', ''5'')]) worldOffline4) = Panic"
  by (simp add: http_defs run_defs mem_defs worldOffline4_def recommendRequest_def)

end
